theory Spec2Isabelle
  imports Complex_Main "HOL-Library.Word" "HOL-Library.Sublist"
begin

unbundle bit_operations_syntax

section \<open>The input action template compiler of \<open>configure_device_setup.convertSet\<close>\<close>

subsection \<open>Values that end up in an instruction tuple\<close>

text \<open>
  A row of the input action table is a JavaScript array of numbers. Inputs, masks,
  cluster and command ids are integers. The endpoint is looked up in a table keyed by
  the model name, so it is \<open>undefined\<close> for a model the table does not hold, and
  \<open>undefined + 1\<close> is \<open>NaN\<close>: a cell is a number, \<open>undefined\<close> or \<open>NaN\<close>.
\<close>

datatype cell = Num int | Undefined | NaN

text \<open>\<open>x + n\<close> and \<open>x += n\<close> for a number \<open>n\<close>.\<close>

fun js_add :: "cell \<Rightarrow> int \<Rightarrow> cell" where
  "js_add (Num a) n = Num (a + n)"
| "js_add Undefined n = NaN"
| "js_add NaN n = NaN"

text \<open>\<open>x < n\<close>: false when \<open>x\<close> is \<open>undefined\<close> or \<open>NaN\<close>.\<close>

fun js_lt :: "cell \<Rightarrow> int \<Rightarrow> bool" where
  "js_lt (Num a) n = (a < n)"
| "js_lt Undefined n = False"
| "js_lt NaN n = False"

text \<open>
  \<open>a & b\<close> and \<open>a >> n\<close> work on the 32-bit two's complement reading of their
  operands and give a signed 32-bit result.
\<close>

definition js_band :: "int \<Rightarrow> int \<Rightarrow> int" where
  "js_band a b = sint ((word_of_int a :: 32 word) AND word_of_int b)"

definition js_sar :: "int \<Rightarrow> nat \<Rightarrow> int" where
  "js_sar a n = sint (signed_drop_bit n (word_of_int a :: 32 word))"

type_synonym tuple = "cell list"

subsection \<open>Templates\<close>

text \<open>
  One authored template, a JSON object. Every key but \<open>type\<close> is optional: a missing
  key reads as \<open>undefined\<close>, here \<open>None\<close>. \<open>inputs\<close> is a pair of input indices.
\<close>

record template =
  t_type :: string
  t_input :: "int option"
  t_inputs :: "(int \<times> int) option"
  t_endpoint :: "int option"
  t_rate :: "int option"
  t_no_onoff :: "bool option"
  t_no_onoff_up :: "bool option"
  t_no_onoff_down :: "bool option"
  t_group_id :: "int option"
  t_group_id_2 :: "int option"
  t_scene_id :: "int option"
  t_scene_id_2 :: "int option"

text \<open>Truthiness of an optional flag and \<open>template.rate || 50\<close>.\<close>

definition flag :: "bool option \<Rightarrow> bool" where
  "flag b = (b = Some True)"

definition moveRate :: "template \<Rightarrow> int" where
  "moveRate template =
     (case t_rate template of None \<Rightarrow> 50 | Some r \<Rightarrow> if r = 0 then 50 else r)"

definition moveUpCmd :: "template \<Rightarrow> int" where
  "moveUpCmd template =
     (if flag (t_no_onoff template) \<or> flag (t_no_onoff_up template) then 0x01 else 0x05)"

definition moveDownCmd :: "template \<Rightarrow> int" where
  "moveDownCmd template =
     (if flag (t_no_onoff template) \<or> flag (t_no_onoff_down template) then 0x01 else 0x05)"

subsection \<open>The registry \<open>templateTypes\<close>\<close>

text \<open>
  The thirteen entries of \<open>templateTypes\<close>, grouped by the shape of their
  \<open>getInputActions\<close>: one input and the template; an input pair and the template
  (the entries with \<open>doubleInputs: true\<close>); one input, a group and a scene (the
  entries with \<open>scene: true\<close>, which also have \<open>getInputActions2\<close>).
\<close>

datatype single_family =
  Toggle | Toggle_switch | On_off_switch | On | Off | Dimmer_single | Cover_up | Cover_down

datatype double_family = Dimmer_double | Cover | Cover_switch

datatype scene_family = Scene | Scene_switch

datatype templateType =
  SingleInput single_family | DoubleInputs double_family | Scenes scene_family

definition templateTypes :: "string \<Rightarrow> templateType option" where
  "templateTypes name =
     (if name = ''toggle'' then Some (SingleInput Toggle)
      else if name = ''toggle_switch'' then Some (SingleInput Toggle_switch)
      else if name = ''on_off_switch'' then Some (SingleInput On_off_switch)
      else if name = ''on'' then Some (SingleInput On)
      else if name = ''off'' then Some (SingleInput Off)
      else if name = ''dimmer_single'' then Some (SingleInput Dimmer_single)
      else if name = ''dimmer_double'' then Some (DoubleInputs Dimmer_double)
      else if name = ''cover'' then Some (DoubleInputs Cover)
      else if name = ''cover_switch'' then Some (DoubleInputs Cover_switch)
      else if name = ''cover_up'' then Some (SingleInput Cover_up)
      else if name = ''cover_down'' then Some (SingleInput Cover_down)
      else if name = ''scene'' then Some (Scenes Scene)
      else if name = ''scene_switch'' then Some (Scenes Scene_switch)
      else None)"

text \<open>
  The lookup goes by the keys the registry itself has. A type that names a property
  every object inherits (\<open>toString\<close>, \<open>constructor\<close>) passes the test of the source
  and fails one step later, where \<open>getInputActions\<close> is not a function; here it is
  reported with the other types the registry does not have.
\<close>

fun doubleInputs :: "templateType \<Rightarrow> bool" where
  "doubleInputs (DoubleInputs f) = True"
| "doubleInputs (SingleInput f) = False"
| "doubleInputs (Scenes f) = False"

fun scene :: "templateType \<Rightarrow> bool" where
  "scene (Scenes f) = True"
| "scene (SingleInput f) = False"
| "scene (DoubleInputs f) = False"

fun cover :: "templateType \<Rightarrow> bool" where
  "cover (DoubleInputs Cover) = True"
| "cover (DoubleInputs Cover_switch) = True"
| "cover (SingleInput Cover_up) = True"
| "cover (SingleInput Cover_down) = True"
| "cover (DoubleInputs Dimmer_double) = False"
| "cover (SingleInput f) = False"
| "cover (Scenes f) = False"

fun getInputActions :: "single_family \<Rightarrow> int \<Rightarrow> cell \<Rightarrow> template \<Rightarrow> tuple list" where
  "getInputActions Toggle i e template =
     [[Num i, Num 0x0d, e, Num 0x06, Num 0x00, Num 0x02]]"
| "getInputActions Toggle_switch i e template =
     [[Num i, Num 0x0d, e, Num 0x06, Num 0x00, Num 0x02],
      [Num i, Num 0x03, e, Num 0x06, Num 0x00, Num 0x02]]"
| "getInputActions On_off_switch i e template =
     [[Num i, Num 0x0d, e, Num 0x06, Num 0x00, Num 0x01],
      [Num i, Num 0x03, e, Num 0x06, Num 0x00, Num 0x00]]"
| "getInputActions On i e template =
     [[Num i, Num 0x0d, e, Num 0x06, Num 0x00, Num 0x01]]"
| "getInputActions Off i e template =
     [[Num i, Num 0x0d, e, Num 0x06, Num 0x00, Num 0x00]]"
| "getInputActions Dimmer_single i e template =
     [[Num i, Num 0x07, e, Num 0x06, Num 0x00, Num 0x02],
      [Num i, Num 0x86, e, Num 0x08, Num 0x00, Num (moveUpCmd template), Num 0x00,
       Num (moveRate template)],
      [Num i, Num 0xc6, e, Num 0x08, Num 0x00, Num (moveDownCmd template), Num 0x01,
       Num (moveRate template)],
      [Num i, Num 0x0b, e, Num 0x08, Num 0x00, Num 0x03]]"
| "getInputActions Cover_up i e template =
     [[Num i, Num 0x0d, e, Num 0x02, Num 0x01, Num 0x00]]"
| "getInputActions Cover_down i e template =
     [[Num i, Num 0x0d, e, Num 0x02, Num 0x01, Num 0x01]]"

fun getInputActions_double ::
  "double_family \<Rightarrow> int \<times> int \<Rightarrow> cell \<Rightarrow> template \<Rightarrow> tuple list" where
  "getInputActions_double Dimmer_double (i0, i1) e template =
     [[Num i0, Num 0x07, e, Num 0x06, Num 0x00, Num 0x01],
      [Num i0, Num 0x06, e, Num 0x08, Num 0x00, Num (moveUpCmd template), Num 0x00,
       Num (moveRate template)],
      [Num i0, Num 0x0b, e, Num 0x08, Num 0x00, Num 0x03],
      [Num i1, Num 0x07, e, Num 0x06, Num 0x00, Num 0x00],
      [Num i1, Num 0x06, e, Num 0x08, Num 0x00, Num (moveDownCmd template), Num 0x01,
       Num (moveRate template)],
      [Num i1, Num 0x0b, e, Num 0x08, Num 0x00, Num 0x03]]"
| "getInputActions_double Cover (i0, i1) e template =
     [[Num i0, Num 0x0d, e, Num 0x02, Num 0x01, Num 0x00],
      [Num i0, Num 0x07, e, Num 0x02, Num 0x01, Num 0x02],
      [Num i1, Num 0x0d, e, Num 0x02, Num 0x01, Num 0x01],
      [Num i1, Num 0x07, e, Num 0x02, Num 0x01, Num 0x02]]"
| "getInputActions_double Cover_switch (i0, i1) e template =
     [[Num i0, Num 0x0d, e, Num 0x02, Num 0x01, Num 0x00],
      [Num i0, Num 0x03, e, Num 0x02, Num 0x01, Num 0x02],
      [Num i1, Num 0x0d, e, Num 0x02, Num 0x01, Num 0x01],
      [Num i1, Num 0x03, e, Num 0x02, Num 0x01, Num 0x02]]"

fun getInputActions_scene :: "scene_family \<Rightarrow> int \<Rightarrow> cell \<Rightarrow> int \<Rightarrow> int \<Rightarrow> tuple list" where
  "getInputActions_scene Scene i e groupId sceneId =
     [[Num i, Num 0x07, e, Num 0x05, Num 0x00, Num 0x05,
       Num (js_band groupId 0xff), Num (js_sar groupId 8), Num sceneId]]"
| "getInputActions_scene Scene_switch i e groupId sceneId =
     [[Num i, Num 0x0d, e, Num 0x05, Num 0x00, Num 0x05,
       Num (js_band groupId 0xff), Num (js_sar groupId 8), Num sceneId]]"

fun getInputActions2 :: "scene_family \<Rightarrow> int \<Rightarrow> cell \<Rightarrow> int \<Rightarrow> int \<Rightarrow> tuple list" where
  "getInputActions2 Scene i e groupId sceneId =
     [[Num i, Num 0x06, e, Num 0x05, Num 0x00, Num 0x05,
       Num (js_band groupId 0xff), Num (js_sar groupId 8), Num sceneId]]"
| "getInputActions2 Scene_switch i e groupId sceneId =
     [[Num i, Num 0x03, e, Num 0x05, Num 0x00, Num 0x05,
       Num (js_band groupId 0xff), Num (js_sar groupId 8), Num sceneId]]"

subsection \<open>The loop over the templates\<close>

datatype error =
  NotSupportedForGroups
| InvalidTemplateType string
| NeedSceneId string
| TransportError

text \<open>
  \<open>meta.mapped\<close> is an array for a group and one definition, with its model name, for
  a device.
\<close>

datatype mapped = Group | Definition string

text \<open>
  The starting endpoint \<open>{S1: 2, S2: 3, D1: 2, J1: 2, C4: 1}[meta.mapped.model]\<close>: an
  object lookup, \<open>undefined\<close> for any other model name. (A name that every object
  inherits, such as \<open>constructor\<close>, would read as that member of the object; no
  definition has such a model name, and here they read as \<open>undefined\<close> too.)
\<close>

definition startingEndpoint :: "string \<Rightarrow> cell" where
  "startingEndpoint model =
     (if model = ''S1'' then Num 2
      else if model = ''S2'' then Num 3
      else if model = ''D1'' then Num 2
      else if model = ''J1'' then Num 2
      else if model = ''C4'' then Num 1
      else Undefined)"

text \<open>The variables the loop mutates: \<open>input\<close>, \<open>endpoint\<close>, \<open>groupId\<close> and the output.\<close>

record cursor =
  input :: int
  endpoint :: cell
  groupId :: int
  resultingInputActions :: "tuple list"

text \<open>
  The endpoint a template is compiled for: the override if the template has one, else
  the running endpoint; then the shift of the cover endpoints of the C4.
\<close>

definition resolvedEndpoint :: "cursor \<Rightarrow> template \<Rightarrow> cell" where
  "resolvedEndpoint c template =
     (case t_endpoint template of Some e \<Rightarrow> Num e | None \<Rightarrow> endpoint c)"

definition usedEndpoint :: "string \<Rightarrow> templateType \<Rightarrow> cell \<Rightarrow> cell" where
  "usedEndpoint model templateType e =
     (if cover templateType \<and> model = ''C4'' \<and> js_lt e 5 then js_add e 4 else e)"

text \<open>One pass of the loop body, for the template \<open>template\<close>.\<close>

definition processTemplate :: "string \<Rightarrow> cursor \<Rightarrow> template \<Rightarrow> error + cursor" where
  "processTemplate model c template =
     (case templateTypes (t_type template) of
        None \<Rightarrow> Inl (InvalidTemplateType (t_type template))
      | Some templateType \<Rightarrow>
          let i = (case t_input template of Some v \<Rightarrow> v | None \<Rightarrow> input c);
              e = usedEndpoint model templateType (resolvedEndpoint c template)
          in (case templateType of
                SingleInput f \<Rightarrow>
                  Inr (c\<lparr>input := i + 1, endpoint := js_add e 1,
                         resultingInputActions :=
                           resultingInputActions c @ getInputActions f i e template\<rparr>)
              | Scenes f \<Rightarrow>
                  (case t_scene_id template of
                     None \<Rightarrow> Inl (NeedSceneId (t_type template))
                   | Some scene_id \<Rightarrow>
                       let g = (case t_group_id template of Some v \<Rightarrow> v | None \<Rightarrow> groupId c);
                           inputActions = getInputActions_scene f i e g scene_id
                       in (case t_scene_id_2 template of
                             None \<Rightarrow>
                               Inr (c\<lparr>input := i + 1, endpoint := js_add e 1, groupId := g,
                                      resultingInputActions :=
                                        resultingInputActions c @ inputActions\<rparr>)
                           | Some scene_id_2 \<Rightarrow>
                               let g2 = (case t_group_id_2 template of
                                           Some v \<Rightarrow> v | None \<Rightarrow> g)
                               in Inr (c\<lparr>input := i + 1, endpoint := js_add e 1,
                                         groupId := g2,
                                         resultingInputActions :=
                                           resultingInputActions c @ inputActions
                                             @ getInputActions2 f i e g2 scene_id_2\<rparr>)))
              | DoubleInputs f \<Rightarrow>
                  let is = (case t_inputs template of Some p \<Rightarrow> p | None \<Rightarrow> (i, i + 1))
                  in Inr (c\<lparr>input := max (fst is) (snd is) + 1, endpoint := js_add e 1,
                            resultingInputActions :=
                              resultingInputActions c
                                @ getInputActions_double f is e template\<rparr>)))"

fun processTemplates :: "string \<Rightarrow> cursor \<Rightarrow> template list \<Rightarrow> error + cursor" where
  "processTemplates model c [] = Inr c"
| "processTemplates model c (template # templates) =
     (case processTemplate model c template of
        Inl err \<Rightarrow> Inl err
      | Inr c' \<Rightarrow> processTemplates model c' templates)"

definition initialCursor :: "string \<Rightarrow> cursor" where
  "initialCursor model =
     \<lparr>input = 0, endpoint = startingEndpoint model, groupId = 0, resultingInputActions = []\<rparr>"

text \<open>
  From \<open>let input = 0\<close> to the end of the loop: the rows to send, or the error thrown.
\<close>

definition compileTemplates :: "mapped \<Rightarrow> template list \<Rightarrow> error + tuple list" where
  "compileTemplates m templates =
     (case m of
        Group \<Rightarrow> Inl NotSupportedForGroups
      | Definition model \<Rightarrow>
          (case processTemplates model (initialCursor model) templates of
             Inl err \<Rightarrow> Inl err
           | Inr c \<Rightarrow> Inr (resultingInputActions c)))"

text \<open>A template with the given type and no other key.\<close>

definition plain :: "string \<Rightarrow> template" where
  "plain ty =
     \<lparr>t_type = ty, t_input = None, t_inputs = None, t_endpoint = None, t_rate = None,
      t_no_onoff = None, t_no_onoff_up = None, t_no_onoff_down = None, t_group_id = None,
      t_group_id_2 = None, t_scene_id = None, t_scene_id_2 = None\<rparr>"

section \<open>The transport\<close>

subsection \<open>JSON values and binary64 numbers\<close>

text \<open>
  The payload of \<open>configure_j1\<close> is an untyped JSON object (\<open>KeyValueAny\<close>). Its
  values are modelled as the JSON scalars: null, booleans and numbers, with \<open>undefined\<close> for
  what a missing key reads as. A JavaScript number is a binary64 value. \<open>JNum r\<close> is the
  number that a literal with the exact value \<open>r\<close> denotes, for \<open>JSON.parse\<close> as for the
  source text: the binary64 value nearest to \<open>r\<close> (\<open>binary64\<close> below, which every
  operator applies to a \<open>JNum\<close> it reads). \<open>-0\<close>, the two infinities and \<open>NaN\<close> stand
  beside it.
\<close>

datatype jsval =
  JUndefined | JNull | JBool bool | JNum rat | JNegZero | JInfinity | JNegInfinity | JNaN

text \<open>A number as the operators see it: \<open>Finite r\<close> with \<open>r\<close> a binary64 value.\<close>

datatype number = Finite rat | NegZero | PosInfinity | NegInfinity | NotANumber

text \<open>
  Rounding to nearest, ties to the even significand. A finite binary64 value is a
  multiple of \<open>2^(e - 52)\<close>, where \<open>2^e\<close> is the power of two at or below its magnitude,
  and of \<open>2^(-1074)\<close> below \<open>2^(-1022)\<close>; what rounds to \<open>2^1024\<close> or more is an
  infinity, what rounds to nothing is a zero with the sign of the exact value.
\<close>

text \<open>The number of binary digits of a positive integer.\<close>

function bitLength :: "int \<Rightarrow> int" where
  "bitLength n = (if n \<le> 0 then 0 else 1 + bitLength (n div 2))"
  by pat_completeness auto
termination
  by (relation "measure nat") auto

declare bitLength.simps [simp del]

definition pow2 :: "int \<Rightarrow> rat" where
  "pow2 e = (if 0 \<le> e then 2 ^ nat e else 1 / 2 ^ nat (- e))"

text \<open>For \<open>a > 0\<close>, the \<open>e\<close> with \<open>2^e \<le> a < 2^(e + 1)\<close>.\<close>

definition floorLog2 :: "rat \<Rightarrow> int" where
  "floorLog2 a =
     (let k = bitLength (fst (quotient_of a)) - bitLength (snd (quotient_of a))
      in if pow2 k \<le> a then k else k - 1)"

definition roundHalfEven :: "rat \<Rightarrow> int" where
  "roundHalfEven x =
     (let f = \<lfloor>x\<rfloor>; d = x - of_int f
      in if d < 1 / 2 then f else if 1 / 2 < d then f + 1 else if even f then f else f + 1)"

text \<open>
  \<open>n\<close> is the significand, in units of the quantum \<open>q\<close>. With \<open>e\<close> at most 1022 the
  rounded value is below \<open>2^1024\<close>; with \<open>e = 1023\<close> it reaches \<open>2^1024\<close> only when the
  significand rounds up to \<open>2^53\<close>.
\<close>

definition round64 :: "rat \<Rightarrow> number" where
  "round64 r =
     (let e = floorLog2 \<bar>r\<bar>;
          q = pow2 (max e (- 1022) - 52);
          n = roundHalfEven (\<bar>r\<bar> / q)
      in if 1023 < e \<or> (e = 1023 \<and> 2 ^ 53 \<le> n) then
           (if r < 0 then NegInfinity else PosInfinity)
         else if n = 0 then (if r < 0 then NegZero else Finite 0)
         else Finite (if r < 0 then - (of_int n * q) else of_int n * q))"

text \<open>
  A whole number below \<open>2^53\<close> in magnitude is a binary64 value as it is, and is not
  sent through the rounding (which leaves it alone: \<open>round64_of_int\<close> below).
\<close>

definition whole53 :: "rat \<Rightarrow> bool" where
  "whole53 r = (case quotient_of r of (n, d) \<Rightarrow> d = 1 \<and> \<bar>n\<bar> < 9007199254740992)"

definition binary64 :: "rat \<Rightarrow> number" where
  "binary64 r = (if whole53 r then Finite r else round64 r)"

text \<open>Sign, zeros and infinities, for the cases IEEE 754 settles without rounding.\<close>

fun negative :: "number \<Rightarrow> bool" where
  "negative (Finite r) = (r < 0)"
| "negative NegZero = True"
| "negative PosInfinity = False"
| "negative NegInfinity = True"
| "negative NotANumber = False"

fun zero :: "number \<Rightarrow> bool" where
  "zero (Finite r) = (r = 0)"
| "zero NegZero = True"
| "zero PosInfinity = False"
| "zero NegInfinity = False"
| "zero NotANumber = False"

fun infinite :: "number \<Rightarrow> bool" where
  "infinite (Finite r) = False"
| "infinite NegZero = False"
| "infinite PosInfinity = True"
| "infinite NegInfinity = True"
| "infinite NotANumber = False"

text \<open>The exact value of a finite number (0 where there is none).\<close>

fun exact :: "number \<Rightarrow> rat" where
  "exact (Finite r) = r"
| "exact NegZero = 0"
| "exact PosInfinity = 0"
| "exact NegInfinity = 0"
| "exact NotANumber = 0"

subsection \<open>JavaScript's operators\<close>

text \<open>ToNumber, and a number as a value again.\<close>

fun toNumber :: "jsval \<Rightarrow> number" where
  "toNumber JUndefined = NotANumber"
| "toNumber JNull = Finite 0"
| "toNumber (JBool b) = Finite (if b then 1 else 0)"
| "toNumber (JNum r) = binary64 r"
| "toNumber JNegZero = NegZero"
| "toNumber JInfinity = PosInfinity"
| "toNumber JNegInfinity = NegInfinity"
| "toNumber JNaN = NotANumber"

fun ofNumber :: "number \<Rightarrow> jsval" where
  "ofNumber (Finite r) = JNum r"
| "ofNumber NegZero = JNegZero"
| "ofNumber PosInfinity = JInfinity"
| "ofNumber NegInfinity = JNegInfinity"
| "ofNumber NotANumber = JNaN"

text \<open>ToBoolean: of the numbers, the zeros and \<open>NaN\<close> are false.\<close>

fun truthy :: "jsval \<Rightarrow> bool" where
  "truthy JUndefined = False"
| "truthy JNull = False"
| "truthy (JBool b) = b"
| "truthy (JNum r) = (\<not> zero (binary64 r))"
| "truthy JNegZero = False"
| "truthy JInfinity = True"
| "truthy JNegInfinity = True"
| "truthy JNaN = False"

text \<open>\<open>x !== 0\<close> is false for the numbers \<open>+0\<close> and \<open>-0\<close>, and for nothing else.\<close>

fun is_zero :: "jsval \<Rightarrow> bool" where
  "is_zero (JNum r) = zero (binary64 r)"
| "is_zero JNegZero = True"
| "is_zero JUndefined = False"
| "is_zero JNull = False"
| "is_zero (JBool b) = False"
| "is_zero JInfinity = False"
| "is_zero JNegInfinity = False"
| "is_zero JNaN = False"

text \<open>
  ToInt32: \<open>NaN\<close>, the infinities and \<open>-0\<close> are 0, any other number is truncated
  towards zero and wrapped to 32 bits. A 32-bit result is read back as a signed number.
\<close>

definition toInt32 :: "jsval \<Rightarrow> 32 word" where
  "toInt32 v =
     (case toNumber v of
        Finite r \<Rightarrow> word_of_int (if r < 0 then \<lceil>r\<rceil> else \<lfloor>r\<rfloor>)
      | _ \<Rightarrow> 0)"

definition ofInt32 :: "32 word \<Rightarrow> jsval" where
  "ofInt32 w = JNum (of_int (sint w))"

definition js_bitand :: "jsval \<Rightarrow> jsval \<Rightarrow> jsval" where
  "js_bitand a b = ofInt32 (toInt32 a AND toInt32 b)"

definition js_bitor :: "jsval \<Rightarrow> jsval \<Rightarrow> jsval" where
  "js_bitor a b = ofInt32 (toInt32 a OR toInt32 b)"

definition js_bitnot :: "jsval \<Rightarrow> jsval" where
  "js_bitnot a = ofInt32 (NOT (toInt32 a))"

text \<open>
  The binary64 product: \<open>NaN\<close> for a \<open>NaN\<close> operand and for infinity times zero; an
  infinity or a zero, with the sign of the operands combined, when an operand is one;
  else the exact product, rounded.
\<close>

definition times64 :: "number \<Rightarrow> number \<Rightarrow> number" where
  "times64 a b =
     (if a = NotANumber \<or> b = NotANumber then NotANumber
      else if (infinite a \<and> zero b) \<or> (zero a \<and> infinite b) then NotANumber
      else if infinite a \<or> infinite b then
        (if negative a \<noteq> negative b then NegInfinity else PosInfinity)
      else if zero a \<or> zero b then
        (if negative a \<noteq> negative b then NegZero else Finite 0)
      else binary64 (exact a * exact b))"

text \<open>The binary64 quotient by 1000, the only divisor of the source.\<close>

definition divide64_1000 :: "number \<Rightarrow> number" where
  "divide64_1000 a =
     (if a = NotANumber \<or> infinite a \<or> zero a then a else binary64 (exact a / 1000))"

definition js_times :: "jsval \<Rightarrow> jsval \<Rightarrow> jsval" where
  "js_times a b = ofNumber (times64 (toNumber a) (toNumber b))"

definition js_divide_1000 :: "jsval \<Rightarrow> jsval" where
  "js_divide_1000 a = ofNumber (divide64_1000 (toNumber a))"

type_synonym payload = "string \<rightharpoonup> jsval"

text \<open>\<open>value[key]\<close>: \<open>undefined\<close> for a missing key.\<close>

definition get :: "payload \<Rightarrow> string \<Rightarrow> jsval" where
  "get v key = (case v key of None \<Rightarrow> JUndefined | Some x \<Rightarrow> x)"

subsection \<open>Requests to the device and their trace\<close>

text \<open>
  The third argument of \<open>read\<close> and \<open>write\<close>: \<open>manufacturerOptions.ubisys\<close>,
  \<open>manufacturerOptions.ubisysNull\<close>, or none.
\<close>

datatype options = NoOptions | Ubisys | UbisysNull

text \<open>The array written to the device setup cluster, with its element type.\<close>

datatype elements = DATA8 "int list" | OCTET_STR "tuple list"

text \<open>
  What a converter does to the outside, in the order it does it: the calls on the
  endpoint (cluster first) and the delays of \<open>sleepSeconds\<close>.
\<close>

datatype op =
  Read string "string list" options
| Write string "(string \<times> jsval) list" options
| WriteElements string string elements options
| WriteStructured string string elements options
| Command string string
| Sleep nat

text \<open>
  The device as a converter sees it. \<open>trace\<close> holds the calls that went through and the
  delays, oldest first. \<open>reported_mode\<close> is the \<open>windowCoveringMode\<close> the device reads
  back, \<open>reported_status\<close> the \<open>operationalStatus\<close> values it answers to the successive
  polls. \<open>budget\<close> is the number of calls that go through before one fails with a
  transport error (\<open>None\<close>: none fails). A converter stops at the first call that fails,
  so one number covers every way the link can fail.
\<close>

record device =
  trace :: "op list"
  reported_mode :: jsval
  reported_status :: "jsval list"
  budget :: "nat option"

text \<open>
  An \<open>async\<close> function: it resolves with a value, throws, or, when the device's
  \<open>operationalStatus\<close> answers run out before the cover has stopped, is still pending.
\<close>

datatype 'a result = Resolved 'a | Thrown error | Pending

type_synonym 'a action = "device \<Rightarrow> 'a result \<times> device"

definition resolve :: "'a \<Rightarrow> 'a action" where
  "resolve x d = (Resolved x, d)"

definition throw :: "error \<Rightarrow> 'a action" where
  "throw err d = (Thrown err, d)"

text \<open>\<open>const x = await m; k(x)\<close>.\<close>

definition await :: "'a action \<Rightarrow> ('a \<Rightarrow> 'b action) \<Rightarrow> 'b action" where
  "await m k d =
     (case m d of
        (Resolved x, d') \<Rightarrow> k x d'
      | (Thrown err, d') \<Rightarrow> (Thrown err, d')
      | (Pending, d') \<Rightarrow> (Pending, d'))"

text \<open>A block of statements.\<close>

fun steps :: "unit action list \<Rightarrow> unit action" where
  "steps [] = resolve ()"
| "steps (m # ms) = await m (\<lambda>_. steps ms)"

definition discard :: "'a action \<Rightarrow> unit action" where
  "discard m = await m (\<lambda>_. resolve ())"

definition call :: "op \<Rightarrow> unit action" where
  "call x d =
     (if budget d = Some 0 then (Thrown TransportError, d)
      else (Resolved (), d\<lparr>trace := trace d @ [x], budget := map_option (\<lambda>n. n - 1) (budget d)\<rparr>))"

definition sleepSeconds :: "nat \<Rightarrow> unit action" where
  "sleepSeconds s d = (Resolved (), d\<lparr>trace := trace d @ [Sleep s]\<rparr>)"

section \<open>The calibration of \<open>configure_j1.convertSet\<close>\<close>

text \<open>
  The lines the source logs are left out: they reach neither the device nor the control
  flow.
\<close>

text \<open>
  \<open>(await entity.read("closuresWindowCovering", ["windowCoveringMode"])).windowCoveringMode\<close>
\<close>

definition read_windowCoveringMode :: "jsval action" where
  "read_windowCoveringMode =
     await (call (Read ''closuresWindowCovering'' [''windowCoveringMode''] NoOptions))
       (\<lambda>_ d. (Resolved (reported_mode d), d))"

text \<open>
  \<open>(await entity.read("closuresWindowCovering", ["operationalStatus"])).operationalStatus\<close>:
  the next answer of the device.
\<close>

definition read_operationalStatus :: "jsval action" where
  "read_operationalStatus =
     await (call (Read ''closuresWindowCovering'' [''operationalStatus''] NoOptions))
       (\<lambda>_ d. case reported_status d of
                 [] \<Rightarrow> (Pending, d)
               | v # vs \<Rightarrow> (Resolved v, d\<lparr>reported_status := vs\<rparr>))"

text \<open>
  The \<open>do ... while (operationalStatus !== 0)\<close> loop of \<open>waitUntilStopped\<close>. It has no
  bound in the source; here it runs on fuel, and is pending when the fuel is gone.
\<close>

fun poll :: "nat \<Rightarrow> unit action" where
  "poll 0 = (\<lambda>d. (Pending, d))"
| "poll (Suc n) =
     await (sleepSeconds 2) (\<lambda>_.
     await read_operationalStatus (\<lambda>operationalStatus.
       if \<not> is_zero operationalStatus then poll n else resolve ()))"

text \<open>
  One pass of the loop takes one answer of the device, so one more unit of fuel than
  there are answers is never used up.
\<close>

definition waitUntilStopped :: "unit action" where
  "waitUntilStopped =
     (\<lambda>d. await (poll (Suc (length (reported_status d)))) (\<lambda>_. sleepSeconds 2) d)"

text \<open>
  The text of \<open>jsonAttr.substring(6, 1).toLowerCase\<close> in a string concatenation: the
  method is not called, so what is concatenated is the function itself, which Node
  prints as below.
\<close>

definition toLowerCase_text :: string where
  "toLowerCase_text = ''function toLowerCase() { [native code] }''"

text \<open>
  The key \<open>writeAttrFromJson\<close> looks up in the payload: \<open>jsonAttr\<close> or, when it is
  missing or empty, \<open>attr\<close>; and for a key that starts with \<open>ubisys\<close>, the text above
  followed by \<open>substring(7)\<close> of the key.
\<close>

definition jsonKey :: "string \<Rightarrow> string option \<Rightarrow> string" where
  "jsonKey attr jsonAttr =
     (let k = (case jsonAttr of None \<Rightarrow> attr | Some j \<Rightarrow> if j = [] then attr else j)
      in if take 6 k = ''ubisys'' then toLowerCase_text @ drop 7 k else k)"

text \<open>
  \<open>writeAttrFromJson\<close>, for the payload \<open>v\<close>. The function has no \<open>return\<close>: it
  resolves with \<open>undefined\<close>.
\<close>

definition writeAttrFromJson ::
  "payload \<Rightarrow> string \<Rightarrow> string option \<Rightarrow> (jsval \<Rightarrow> jsval) option \<Rightarrow> nat option \<Rightarrow> jsval action"
where
  "writeAttrFromJson v attr jsonAttr converterFunc delaySecondsAfter =
     (if get v (jsonKey attr jsonAttr) \<noteq> JUndefined then
        await (call (Write ''closuresWindowCovering''
                 [(attr, case converterFunc of
                           None \<Rightarrow> get v (jsonKey attr jsonAttr)
                         | Some f \<Rightarrow> f (get v (jsonKey attr jsonAttr)))] Ubisys)) (\<lambda>_.
        await (case delaySecondsAfter of
                 None \<Rightarrow> resolve ()
               | Some s \<Rightarrow> if s \<noteq> 0 then sleepSeconds s else resolve ()) (\<lambda>_.
        resolve JUndefined))
      else resolve JUndefined)"

definition modeCalibrationBitMask :: jsval where
  "modeCalibrationBitMask = JNum 2"

text \<open>\<open>value.steps_per_second || 50\<close> and \<open>value.calibrate != null\<close>.\<close>

definition stepsPerSecond :: "payload \<Rightarrow> jsval" where
  "stepsPerSecond v =
     (if truthy (get v ''steps_per_second'') then get v ''steps_per_second'' else JNum 50)"

definition hasCalibrate :: "payload \<Rightarrow> bool" where
  "hasCalibrate v = (get v ''calibrate'' \<noteq> JNull \<and> get v ''calibrate'' \<noteq> JUndefined)"

text \<open>The three reads of \<open>configure_j1.convertGet\<close>; their answers are only logged.\<close>

definition convertGet_j1 :: "unit action" where
  "convertGet_j1 =
     steps [
       call (Read ''closuresWindowCovering''
         [''windowCoveringType'', ''physicalClosedLimitLiftCm'',
          ''physicalClosedLimitTiltDdegree'', ''installedOpenLimitLiftCm'',
          ''installedClosedLimitLiftCm'', ''installedOpenLimitTiltDdegree'',
          ''installedClosedLimitTiltDdegree''] NoOptions),
       call (Read ''closuresWindowCovering''
         [''configStatus'', ''windowCoveringMode'', ''currentPositionLiftPercentage'',
          ''currentPositionLiftCm'', ''currentPositionTiltPercentage'',
          ''currentPositionTiltDdegree'', ''operationalStatus''] NoOptions),
       call (Read ''closuresWindowCovering''
         [''ubisysTurnaroundGuardTime'', ''ubisysLiftToTiltTransitionSteps'',
          ''ubisysTotalSteps'', ''ubisysLiftToTiltTransitionSteps2'', ''ubisysTotalSteps2'',
          ''ubisysAdditionalSteps'', ''ubisysInactivePowerThreshold'',
          ''ubisysStartupSteps''] Ubisys)]"

text \<open>The first \<open>if (hasCalibrate)\<close> block, with the working mode \<open>mode\<close>.\<close>

definition calibrationSequence :: "jsval \<Rightarrow> unit action" where
  "calibrationSequence mode =
     steps [
       call (Command ''closuresWindowCovering'' ''upOpen''),
       waitUntilStopped,
       call (Write ''closuresWindowCovering''
         [(''installedOpenLimitLiftCm'', JNum 0),
          (''installedClosedLimitLiftCm'', JNum 240),
          (''installedOpenLimitTiltDdegree'', JNum 0),
          (''installedClosedLimitTiltDdegree'', JNum 900),
          (''ubisysLiftToTiltTransitionSteps'', JNum 0xffff),
          (''ubisysTotalSteps'', JNum 0xffff),
          (''ubisysLiftToTiltTransitionSteps2'', JNum 0xffff),
          (''ubisysTotalSteps2'', JNum 0xffff)] Ubisys),
       sleepSeconds 2,
       call (Write ''closuresWindowCovering''
         [(''windowCoveringMode'', js_bitor mode modeCalibrationBitMask)] NoOptions),
       sleepSeconds 2,
       call (Command ''closuresWindowCovering'' ''downClose''),
       sleepSeconds 5,
       call (Command ''closuresWindowCovering'' ''stop''),
       sleepSeconds 2,
       call (Command ''closuresWindowCovering'' ''upOpen''),
       waitUntilStopped,
       call (Command ''closuresWindowCovering'' ''downClose''),
       waitUntilStopped,
       call (Command ''closuresWindowCovering'' ''upOpen''),
       waitUntilStopped]"

text \<open>"now write any attribute values present in JSON", and the convenience keys.\<close>

definition attributeWrites :: "payload \<Rightarrow> unit action" where
  "attributeWrites v =
     steps [
       discard (writeAttrFromJson v ''installedOpenLimitLiftCm'' None None None),
       discard (writeAttrFromJson v ''installedClosedLimitLiftCm'' None None None),
       discard (writeAttrFromJson v ''installedOpenLimitTiltDdegree'' None None None),
       discard (writeAttrFromJson v ''installedClosedLimitTiltDdegree'' None None None),
       discard (writeAttrFromJson v ''ubisysTurnaroundGuardTime'' None None None),
       discard (writeAttrFromJson v ''ubisysLiftToTiltTransitionSteps'' None None None),
       discard (writeAttrFromJson v ''ubisysTotalSteps'' None None None),
       discard (writeAttrFromJson v ''ubisysLiftToTiltTransitionSteps2'' None None None),
       discard (writeAttrFromJson v ''ubisysTotalSteps2'' None None None),
       discard (writeAttrFromJson v ''ubisysAdditionalSteps'' None None None),
       discard (writeAttrFromJson v ''ubisysInactivePowerThreshold'' None None None),
       discard (writeAttrFromJson v ''ubisysStartupSteps'' None None None),
       discard (writeAttrFromJson v ''ubisysTotalSteps'' (Some ''open_to_closed_s'')
         (Some (\<lambda>s. js_times s (stepsPerSecond v))) None),
       discard (writeAttrFromJson v ''ubisysTotalSteps2'' (Some ''closed_to_open_s'')
         (Some (\<lambda>s. js_times s (stepsPerSecond v))) None),
       discard (writeAttrFromJson v ''ubisysLiftToTiltTransitionSteps''
         (Some ''lift_to_tilt_transition_ms'')
         (Some (\<lambda>s. js_divide_1000 (js_times s (stepsPerSecond v)))) None),
       discard (writeAttrFromJson v ''ubisysLiftToTiltTransitionSteps2''
         (Some ''lift_to_tilt_transition_ms'')
         (Some (\<lambda>s. js_divide_1000 (js_times s (stepsPerSecond v)))) None)]"

text \<open>The second \<open>if (hasCalibrate)\<close> block.\<close>

definition finalizeCalibration :: "jsval \<Rightarrow> unit action" where
  "finalizeCalibration mode =
     steps [
       sleepSeconds 2,
       call (Write ''closuresWindowCovering''
         [(''windowCoveringMode'', js_bitand mode (js_bitnot modeCalibrationBitMask))]
         NoOptions),
       sleepSeconds 2,
       convertGet_j1]"

text \<open>
  \<open>configure_j1.convertSet\<close> for the payload \<open>v\<close>. \<open>mode\<close> is what the device read
  back; it becomes the payload's \<open>windowCoveringMode\<close> only if what
  \<open>writeAttrFromJson\<close> resolved with is truthy.
\<close>

definition convertSet_j1 :: "payload \<Rightarrow> unit action" where
  "convertSet_j1 v =
     await read_windowCoveringMode (\<lambda>mode0.
     await (if truthy (js_bitand mode0 modeCalibrationBitMask) then
              steps [
                call (Write ''closuresWindowCovering''
                  [(''windowCoveringMode'',
                    js_bitand mode0 (js_bitnot modeCalibrationBitMask))] NoOptions),
                sleepSeconds 2]
            else resolve ()) (\<lambda>_.
     await (writeAttrFromJson v ''windowCoveringType'' None None (Some 2)) (\<lambda>_.
     await (writeAttrFromJson v ''configStatus'' None None (Some 2)) (\<lambda>_.
     await (writeAttrFromJson v ''windowCoveringMode'' None None (Some 2)) (\<lambda>written.
       let mode = (if truthy written then get v ''windowCoveringMode'' else mode0)
       in steps [
            if hasCalibrate v then calibrationSequence mode else resolve (),
            attributeWrites v,
            if hasCalibrate v then finalizeCalibration mode else resolve ()])))))"

text \<open>A run of the calibration command against a device that has seen no call yet.\<close>

definition fresh :: "jsval \<Rightarrow> jsval list \<Rightarrow> nat option \<Rightarrow> device" where
  "fresh m sts b = \<lparr>trace = [], reported_mode = m, reported_status = sts, budget = b\<rparr>"

definition runCalibration :: "payload \<Rightarrow> device \<Rightarrow> unit result \<times> device" where
  "runCalibration v d = convertSet_j1 v d"

section \<open>\<open>configure_device_setup.convertSet\<close>\<close>

text \<open>
  \<open>value.input_action_templates\<close> is a list of templates or one template, which the
  converter wraps in a list.
\<close>

datatype templates = One template | Many "template list"

fun asList :: "templates \<Rightarrow> template list" where
  "asList (One template) = [template]"
| "asList (Many ts) = ts"

text \<open>
  The three optional keys of the payload; a missing key is \<open>None\<close>. The endpoint 232
  the converter writes to and the lookup of the two attributes in the cluster definition
  are taken as given.
\<close>

record setup_value =
  input_configurations :: "int list option"
  input_actions :: "int list list option"
  input_action_templates :: "templates option"

text \<open>
  The write of an array attribute on endpoint 232: \<open>writeStructured\<close> when the
  firmware is 1.9.0 or later (\<open>useWriteStruct\<close>, decided from the device's build id
  outside this model), a plain \<open>write\<close> otherwise.
\<close>

definition writeArray :: "bool \<Rightarrow> string \<Rightarrow> elements \<Rightarrow> unit action" where
  "writeArray useWriteStruct attribute els =
     (if useWriteStruct
      then call (WriteStructured ''manuSpecificUbisysDeviceSetup'' attribute els UbisysNull)
      else call (WriteElements ''manuSpecificUbisysDeviceSetup'' attribute els UbisysNull))"

definition convertGet_device_setup :: "unit action" where
  "convertGet_device_setup =
     steps [
       call (Read ''manuSpecificUbisysDeviceSetup'' [''inputConfigurations''] UbisysNull),
       call (Read ''manuSpecificUbisysDeviceSetup'' [''inputActions''] UbisysNull)]"

text \<open>The \<open>if (value.input_action_templates != null)\<close> block.\<close>

definition writeTemplates :: "mapped \<Rightarrow> bool \<Rightarrow> templates \<Rightarrow> unit action" where
  "writeTemplates m useWriteStruct ts =
     (case compileTemplates m (asList ts) of
        Inl err \<Rightarrow> throw err
      | Inr rows \<Rightarrow> writeArray useWriteStruct ''inputActions'' (OCTET_STR rows))"

definition convertSet_device_setup :: "mapped \<Rightarrow> bool \<Rightarrow> setup_value \<Rightarrow> unit action" where
  "convertSet_device_setup m useWriteStruct v =
     steps [
       (case input_configurations v of
          None \<Rightarrow> resolve ()
        | Some bytes \<Rightarrow> writeArray useWriteStruct ''inputConfigurations'' (DATA8 bytes)),
       (case input_actions v of
          None \<Rightarrow> resolve ()
        | Some rows \<Rightarrow>
            writeArray useWriteStruct ''inputActions'' (OCTET_STR (map (map Num) rows))),
       (case input_action_templates v of
          None \<Rightarrow> resolve ()
        | Some ts \<Rightarrow> writeTemplates m useWriteStruct ts),
       convertGet_device_setup]"

section \<open>What a trace shows\<close>

text \<open>
  A view of a trace keeps, of every call, what \<open>p\<close> picks from it, in order.
\<close>

definition view :: "(op \<Rightarrow> 'b list) \<Rightarrow> op list \<Rightarrow> 'b list" where
  "view p ops = concat (map p ops)"

text \<open>The values written to the attribute \<open>a\<close>, oldest first.\<close>

definition writes_of :: "string \<Rightarrow> op \<Rightarrow> jsval list" where
  "writes_of a x =
     (case x of
        Write cl attrs opt \<Rightarrow> map snd (filter (\<lambda>kv. fst kv = a) attrs)
      | _ \<Rightarrow> [])"

definition written :: "string \<Rightarrow> op list \<Rightarrow> jsval list" where
  "written a ops = view (writes_of a) ops"

text \<open>The attribute writes, whole.\<close>

definition attribute_write :: "op \<Rightarrow> op list" where
  "attribute_write x = (case x of Write cl attrs opt \<Rightarrow> [x] | _ \<Rightarrow> [])"

text \<open>
  The commands to the cover and the reads that ask for \<open>operationalStatus\<close>.
\<close>

definition motion :: "op \<Rightarrow> op list" where
  "motion x =
     (case x of
        Command cl c \<Rightarrow> [x]
      | Read cl attrs opt \<Rightarrow> if ''operationalStatus'' \<in> set attrs then [x] else []
      | _ \<Rightarrow> [])"

text \<open>The commands to the cover alone.\<close>

definition commands :: "op \<Rightarrow> op list" where
  "commands x = (case x of Command cl c \<Rightarrow> [x] | _ \<Rightarrow> [])"

text \<open>The test \<open>mode & modeCalibrationBitMask\<close> of the source, on any value.\<close>

definition calibrating :: "jsval \<Rightarrow> bool" where
  "calibrating mode = truthy (js_bitand mode modeCalibrationBitMask)"

fun resolved :: "'a result \<Rightarrow> bool" where
  "resolved (Resolved x) = True"
| "resolved (Thrown err) = False"
| "resolved Pending = False"

section \<open>The calibration in a line\<close>

text \<open>
  The calls and delays of \<open>configure_j1.convertSet\<close> in the order of the source, the
  polling loops of \<open>waitUntilStopped\<close> left out. \<open>follows\<close> below ties a converter
  to such a line: whatever the device answers and wherever the link fails, the trace
  grows by a prefix of the line, and by the whole line when the converter resolves.
\<close>

definition pollRead :: op where
  "pollRead = Read ''closuresWindowCovering'' [''operationalStatus''] NoOptions"

definition modeRead :: op where
  "modeRead = Read ''closuresWindowCovering'' [''windowCoveringMode''] NoOptions"

definition attrOps ::
  "payload \<Rightarrow> string \<Rightarrow> string option \<Rightarrow> (jsval \<Rightarrow> jsval) option \<Rightarrow> nat option \<Rightarrow> op list"
where
  "attrOps v attr jsonAttr converterFunc delaySecondsAfter =
     (if get v (jsonKey attr jsonAttr) \<noteq> JUndefined then
        [Write ''closuresWindowCovering''
           [(attr, case converterFunc of
                     None \<Rightarrow> get v (jsonKey attr jsonAttr)
                   | Some f \<Rightarrow> f (get v (jsonKey attr jsonAttr)))] Ubisys]
        @ (case delaySecondsAfter of
             None \<Rightarrow> []
           | Some s \<Rightarrow> if s \<noteq> 0 then [Sleep s] else [])
      else [])"

definition settleCalls :: "jsval \<Rightarrow> op list" where
  "settleCalls mode =
     (if truthy (js_bitand mode modeCalibrationBitMask) then
        [Write ''closuresWindowCovering''
           [(''windowCoveringMode'', js_bitand mode (js_bitnot modeCalibrationBitMask))]
           NoOptions,
         Sleep 2]
      else [])"

definition calibrationCalls :: "jsval \<Rightarrow> op list" where
  "calibrationCalls mode =
     [Command ''closuresWindowCovering'' ''upOpen'',
      Write ''closuresWindowCovering''
         [(''installedOpenLimitLiftCm'', JNum 0),
          (''installedClosedLimitLiftCm'', JNum 240),
          (''installedOpenLimitTiltDdegree'', JNum 0),
          (''installedClosedLimitTiltDdegree'', JNum 900),
          (''ubisysLiftToTiltTransitionSteps'', JNum 0xffff),
          (''ubisysTotalSteps'', JNum 0xffff),
          (''ubisysLiftToTiltTransitionSteps2'', JNum 0xffff),
          (''ubisysTotalSteps2'', JNum 0xffff)] Ubisys,
      Sleep 2,
      Write ''closuresWindowCovering''
         [(''windowCoveringMode'', js_bitor mode modeCalibrationBitMask)] NoOptions,
      Sleep 2,
      Command ''closuresWindowCovering'' ''downClose'',
      Sleep 5,
      Command ''closuresWindowCovering'' ''stop'',
      Sleep 2,
      Command ''closuresWindowCovering'' ''upOpen'',
      Command ''closuresWindowCovering'' ''downClose'',
      Command ''closuresWindowCovering'' ''upOpen'']"

definition attributeCalls :: "payload \<Rightarrow> op list" where
  "attributeCalls v =
     attrOps v ''installedOpenLimitLiftCm'' None None None
     @ attrOps v ''installedClosedLimitLiftCm'' None None None
     @ attrOps v ''installedOpenLimitTiltDdegree'' None None None
     @ attrOps v ''installedClosedLimitTiltDdegree'' None None None
     @ attrOps v ''ubisysTurnaroundGuardTime'' None None None
     @ attrOps v ''ubisysLiftToTiltTransitionSteps'' None None None
     @ attrOps v ''ubisysTotalSteps'' None None None
     @ attrOps v ''ubisysLiftToTiltTransitionSteps2'' None None None
     @ attrOps v ''ubisysTotalSteps2'' None None None
     @ attrOps v ''ubisysAdditionalSteps'' None None None
     @ attrOps v ''ubisysInactivePowerThreshold'' None None None
     @ attrOps v ''ubisysStartupSteps'' None None None
     @ attrOps v ''ubisysTotalSteps'' (Some ''open_to_closed_s'')
         (Some (\<lambda>s. js_times s (stepsPerSecond v))) None
     @ attrOps v ''ubisysTotalSteps2'' (Some ''closed_to_open_s'')
         (Some (\<lambda>s. js_times s (stepsPerSecond v))) None
     @ attrOps v ''ubisysLiftToTiltTransitionSteps'' (Some ''lift_to_tilt_transition_ms'')
         (Some (\<lambda>s. js_divide_1000 (js_times s (stepsPerSecond v)))) None
     @ attrOps v ''ubisysLiftToTiltTransitionSteps2'' (Some ''lift_to_tilt_transition_ms'')
         (Some (\<lambda>s. js_divide_1000 (js_times s (stepsPerSecond v)))) None"

definition reportReads :: "op list" where
  "reportReads =
     [Read ''closuresWindowCovering''
         [''windowCoveringType'', ''physicalClosedLimitLiftCm'',
          ''physicalClosedLimitTiltDdegree'', ''installedOpenLimitLiftCm'',
          ''installedClosedLimitLiftCm'', ''installedOpenLimitTiltDdegree'',
          ''installedClosedLimitTiltDdegree''] NoOptions,
      Read ''closuresWindowCovering''
         [''configStatus'', ''windowCoveringMode'', ''currentPositionLiftPercentage'',
          ''currentPositionLiftCm'', ''currentPositionTiltPercentage'',
          ''currentPositionTiltDdegree'', ''operationalStatus''] NoOptions,
      Read ''closuresWindowCovering''
         [''ubisysTurnaroundGuardTime'', ''ubisysLiftToTiltTransitionSteps'',
          ''ubisysTotalSteps'', ''ubisysLiftToTiltTransitionSteps2'', ''ubisysTotalSteps2'',
          ''ubisysAdditionalSteps'', ''ubisysInactivePowerThreshold'',
          ''ubisysStartupSteps''] Ubisys]"

definition finalizeCalls :: "jsval \<Rightarrow> op list" where
  "finalizeCalls mode =
     [Sleep 2,
      Write ''closuresWindowCovering''
         [(''windowCoveringMode'', js_bitand mode (js_bitnot modeCalibrationBitMask))]
         NoOptions,
      Sleep 2] @ reportReads"

definition script :: "payload \<Rightarrow> jsval \<Rightarrow> op list" where
  "script v mode =
     [modeRead] @ settleCalls mode
     @ attrOps v ''windowCoveringType'' None None (Some 2)
     @ attrOps v ''configStatus'' None None (Some 2)
     @ attrOps v ''windowCoveringMode'' None None (Some 2)
     @ (if hasCalibrate v then calibrationCalls mode else [])
     @ attributeCalls v
     @ (if hasCalibrate v then finalizeCalls mode else [])"

text \<open>
  \<open>follows mode p m S\<close>: on a device that reads back \<open>mode\<close>, the view \<open>p\<close> of what
  \<open>m\<close> adds to the trace is a prefix of the view of \<open>S\<close>, and all of it when \<open>m\<close>
  resolves.
\<close>

definition follows :: "jsval \<Rightarrow> (op \<Rightarrow> 'b list) \<Rightarrow> 'a action \<Rightarrow> op list \<Rightarrow> bool" where
  "follows mode p m S =
     (\<forall>d. reported_mode d = mode \<longrightarrow>
        reported_mode (snd (m d)) = mode \<and>
        (\<exists>xs. view p (trace (snd (m d))) = view p (trace d) @ xs \<and> prefix xs (view p S) \<and>
              (resolved (fst (m d)) \<longrightarrow> xs = view p S)))"

section \<open>How the converters run\<close>

lemma view_append [simp]: "view p (xs @ ys) = view p xs @ view p ys"
  by (simp add: view_def)

lemma view_Nil [simp]: "view p [] = []"
  by (simp add: view_def)

lemma view_Cons [simp]: "view p (x # xs) = p x @ view p xs"
  by (simp add: view_def)

lemma follows_resolve: "follows mode p (resolve x) []"
  by (simp add: follows_def resolve_def)

lemma follows_call: "follows mode p (call x) [x]"
  by (simp add: follows_def call_def)

lemma follows_sleepSeconds: "follows mode p (sleepSeconds s) [Sleep s]"
  by (simp add: follows_def sleepSeconds_def)

lemma follows_await:
  assumes m: "follows mode p m S1" and k: "\<And>x. follows mode p (k x) S2"
  shows "follows mode p (await m k) (S1 @ S2)"
  unfolding follows_def
proof (intro allI impI)
  fix d :: device
  assume d: "reported_mode d = mode"
  obtain r d1 where md: "m d = (r, d1)" by (cases "m d")
  from m d md obtain xs where
    m1: "reported_mode d1 = mode" and
    xs: "view p (trace d1) = view p (trace d) @ xs" "prefix xs (view p S1)"
        "resolved r \<longrightarrow> xs = view p S1"
    unfolding follows_def by fastforce
  show "reported_mode (snd (await m k d)) = mode \<and>
        (\<exists>xs. view p (trace (snd (await m k d))) = view p (trace d) @ xs \<and>
              prefix xs (view p (S1 @ S2)) \<and>
              (resolved (fst (await m k d)) \<longrightarrow> xs = view p (S1 @ S2)))"
  proof (cases r)
    case (Resolved x)
    obtain r2 d2 where kd: "k x d1 = (r2, d2)" by (cases "k x d1")
    from k [of x] m1 kd obtain ys where
      k1: "reported_mode d2 = mode" and
      ys: "view p (trace d2) = view p (trace d1) @ ys" "prefix ys (view p S2)"
          "resolved r2 \<longrightarrow> ys = view p S2"
      unfolding follows_def by fastforce
    have aw: "await m k d = (r2, d2)" by (simp add: await_def md Resolved kd)
    from xs Resolved have xs1: "xs = view p S1" by simp
    show ?thesis
      using k1 ys xs(1) by (auto simp: aw xs1)
  next
    case (Thrown err)
    have aw: "await m k d = (Thrown err, d1)" by (simp add: await_def md Thrown)
    show ?thesis using m1 xs by (auto simp: aw prefix_def)
  next
    case Pending
    have aw: "await m k d = (Pending, d1)" by (simp add: await_def md Pending)
    show ?thesis using m1 xs by (auto simp: aw prefix_def)
  qed
qed

lemma follows_steps_Nil: "follows mode p (steps []) []"
  by (simp add: follows_resolve)

lemma follows_steps_Cons:
  "follows mode p m S1 \<Longrightarrow> follows mode p (steps ms) S2 \<Longrightarrow> follows mode p (steps (m # ms)) (S1 @ S2)"
  by (simp add: follows_await)

lemma follows_discard: "follows mode p m S \<Longrightarrow> follows mode p (discard m) S"
  using follows_await [of mode p m S "\<lambda>_. resolve ()" "[]"]
  by (simp add: discard_def follows_resolve)

lemma follows_view:
  "follows mode p m S \<Longrightarrow> view p S = view p S' \<Longrightarrow> follows mode p m S'"
  by (simp add: follows_def)

lemma follows_read_operationalStatus:
  "follows mode p read_operationalStatus [pollRead]"
  by (auto simp: follows_def read_operationalStatus_def await_def call_def pollRead_def
      split: list.splits)

lemma follows_poll:
  assumes "p (Sleep 2) = []" and "p pollRead = []"
  shows "follows mode p (poll n) []"
proof (induction n)
  case 0
  show ?case by (simp add: follows_def)
next
  case (Suc n)
  have "follows mode p (poll (Suc n)) ([Sleep 2] @ [pollRead] @ [])"
    unfolding poll.simps
    by (intro follows_await follows_sleepSeconds follows_read_operationalStatus)
       (simp add: Suc follows_resolve)
  then show ?case
    by (rule follows_view) (simp add: assms)
qed

lemma follows_waitUntilStopped:
  assumes "p (Sleep 2) = []" and "p pollRead = []"
  shows "follows mode p waitUntilStopped []"
proof -
  have loop: "follows mode p (await (poll n) (\<lambda>_. sleepSeconds 2)) []" for n
    by (rule follows_view [OF follows_await [OF follows_poll [OF assms] follows_sleepSeconds]])
       (simp add: assms)
  show ?thesis
    unfolding follows_def
  proof (intro allI impI)
    fix d :: device
    assume d: "reported_mode d = mode"
    have w: "waitUntilStopped d =
        await (poll (Suc (length (reported_status d)))) (\<lambda>_. sleepSeconds 2) d"
      by (simp only: waitUntilStopped_def)
    from loop [unfolded follows_def, rule_format, OF d, of "Suc (length (reported_status d))"]
    show "reported_mode (snd (waitUntilStopped d)) = mode \<and>
        (\<exists>xs. view p (trace (snd (waitUntilStopped d))) = view p (trace d) @ xs \<and>
              prefix xs (view p []) \<and>
              (resolved (fst (waitUntilStopped d)) \<longrightarrow> xs = view p []))"
      by (simp only: w)
  qed
qed

lemma follows_delay:
  "follows mode p
     (case delaySecondsAfter of
        None \<Rightarrow> resolve ()
      | Some s \<Rightarrow> if s \<noteq> 0 then sleepSeconds s else resolve ())
     (case delaySecondsAfter of
        None \<Rightarrow> []
      | Some s \<Rightarrow> if s \<noteq> 0 then [Sleep s] else [])"
  by (simp add: follows_resolve follows_sleepSeconds split: option.split)

lemma follows_writeAttrFromJson:
  "follows mode p (writeAttrFromJson v attr jsonAttr converterFunc delaySecondsAfter)
     (attrOps v attr jsonAttr converterFunc delaySecondsAfter)"
proof (cases "get v (jsonKey attr jsonAttr) \<noteq> JUndefined")
  case False
  then show ?thesis
    by (simp add: writeAttrFromJson_def attrOps_def follows_resolve)
next
  case True
  have "follows mode p
     (await (call (Write ''closuresWindowCovering''
                 [(attr, case converterFunc of
                           None \<Rightarrow> get v (jsonKey attr jsonAttr)
                         | Some f \<Rightarrow> f (get v (jsonKey attr jsonAttr)))] Ubisys)) (\<lambda>_.
        await (case delaySecondsAfter of
                 None \<Rightarrow> resolve ()
               | Some s \<Rightarrow> if s \<noteq> 0 then sleepSeconds s else resolve ()) (\<lambda>_.
        resolve JUndefined)))
     ([Write ''closuresWindowCovering''
           [(attr, case converterFunc of
                     None \<Rightarrow> get v (jsonKey attr jsonAttr)
                   | Some f \<Rightarrow> f (get v (jsonKey attr jsonAttr)))] Ubisys]
      @ (case delaySecondsAfter of
             None \<Rightarrow> []
           | Some s \<Rightarrow> if s \<noteq> 0 then [Sleep s] else []) @ [])"
    by (intro follows_await follows_call follows_delay follows_resolve)
  then show ?thesis
    using True by (simp add: attrOps_def writeAttrFromJson_def)
qed

lemma writeAttrFromJson_undefined:
  "fst (writeAttrFromJson v attr jsonAttr converterFunc delaySecondsAfter d) = Resolved x \<Longrightarrow>
   x = JUndefined"
  by (auto simp: writeAttrFromJson_def await_def call_def resolve_def sleepSeconds_def
      split: if_splits option.splits)

lemma follows_await_value:
  assumes m: "follows mode p m S1" and v: "\<And>d x. fst (m d) = Resolved x \<Longrightarrow> x = c"
    and k: "follows mode p (k c) S2"
  shows "follows mode p (await m k) (S1 @ S2)"
proof -
  have "await m k = await m (\<lambda>_. k c)"
  proof
    fix d show "await m k d = await m (\<lambda>_. k c) d"
      using v [of d] by (cases "m d") (auto simp: await_def split: result.splits)
  qed
  then show ?thesis
    using follows_await [OF m, of "\<lambda>_. k c" S2] k by simp
qed

lemma follows_read_windowCoveringMode:
  assumes "follows mode p (k mode) S"
  shows "follows mode p (await read_windowCoveringMode k) ([modeRead] @ S)"
proof -
  have r: "follows mode p read_windowCoveringMode [modeRead]"
    by (auto simp: follows_def read_windowCoveringMode_def await_def call_def modeRead_def)
  have "await read_windowCoveringMode k d = await read_windowCoveringMode (\<lambda>_. k mode) d"
    if "reported_mode d = mode" for d
    using that by (auto simp: read_windowCoveringMode_def await_def call_def)
  then have "follows mode p (await read_windowCoveringMode k) ([modeRead] @ S) =
      follows mode p (await read_windowCoveringMode (\<lambda>_. k mode)) ([modeRead] @ S)"
    unfolding follows_def by simp
  then show ?thesis
    using follows_await [OF r, of "\<lambda>_. k mode" S] assms by simp
qed

lemma follows_calibrationSequence:
  assumes "p (Sleep 2) = []" and "p pollRead = []"
  shows "follows mode p (calibrationSequence m) (calibrationCalls m)"
  unfolding calibrationSequence_def
  apply (rule follows_view)
   apply (rule follows_steps_Cons follows_steps_Nil follows_call follows_sleepSeconds
      follows_waitUntilStopped assms)+
  apply (simp add: calibrationCalls_def)
  done

lemma follows_attributeWrites: "follows mode p (attributeWrites v) (attributeCalls v)"
  unfolding attributeWrites_def
  apply (rule follows_view)
   apply (rule follows_steps_Cons follows_steps_Nil follows_discard follows_writeAttrFromJson)+
  apply (simp add: attributeCalls_def)
  done

lemma follows_convertGet_j1: "follows mode p convertGet_j1 reportReads"
  unfolding convertGet_j1_def
  apply (rule follows_view)
   apply (rule follows_steps_Cons follows_steps_Nil follows_call)+
  apply (simp add: reportReads_def)
  done

lemma follows_finalizeCalibration:
  "follows mode p (finalizeCalibration m) (finalizeCalls m)"
  unfolding finalizeCalibration_def
  apply (rule follows_view)
   apply (rule follows_steps_Cons follows_steps_Nil follows_call follows_sleepSeconds
      follows_convertGet_j1)+
  apply (simp add: finalizeCalls_def)
  done

lemma follows_settle:
  "follows mode p
     (if truthy (js_bitand m modeCalibrationBitMask) then
        steps [
          call (Write ''closuresWindowCovering''
            [(''windowCoveringMode'', js_bitand m (js_bitnot modeCalibrationBitMask))]
            NoOptions),
          sleepSeconds 2]
      else resolve ())
     (settleCalls m)"
proof (cases "truthy (js_bitand m modeCalibrationBitMask)")
  case True
  have "follows mode p
     (steps [
          call (Write ''closuresWindowCovering''
            [(''windowCoveringMode'', js_bitand m (js_bitnot modeCalibrationBitMask))]
            NoOptions),
          sleepSeconds 2])
     ([Write ''closuresWindowCovering''
           [(''windowCoveringMode'', js_bitand m (js_bitnot modeCalibrationBitMask))]
           NoOptions] @ [Sleep 2] @ [])"
    by (intro follows_steps_Cons follows_steps_Nil follows_call follows_sleepSeconds)
  with True show ?thesis by (simp add: settleCalls_def)
next
  case False
  then show ?thesis by (simp add: settleCalls_def follows_resolve)
qed

lemma follows_blocks:
  assumes "hasCalibrate v \<Longrightarrow> p (Sleep 2) = []" and "hasCalibrate v \<Longrightarrow> p pollRead = []"
  shows "follows mode p
     (steps [
        if hasCalibrate v then calibrationSequence m else resolve (),
        attributeWrites v,
        if hasCalibrate v then finalizeCalibration m else resolve ()])
     ((if hasCalibrate v then calibrationCalls m else [])
      @ attributeCalls v
      @ (if hasCalibrate v then finalizeCalls m else []))"
proof (cases "hasCalibrate v")
  case True
  have "follows mode p
     (steps [calibrationSequence m, attributeWrites v, finalizeCalibration m])
     (calibrationCalls m @ attributeCalls v @ finalizeCalls m @ [])"
    by (intro follows_steps_Cons follows_steps_Nil follows_calibrationSequence
        follows_attributeWrites follows_finalizeCalibration assms True)
  with True show ?thesis by simp
next
  case False
  have "follows mode p
     (steps [resolve (), attributeWrites v, resolve ()])
     ([] @ attributeCalls v @ [] @ [])"
    by (intro follows_steps_Cons follows_steps_Nil follows_resolve follows_attributeWrites)
  with False show ?thesis by simp
qed

lemma follows_convertSet_j1:
  assumes "hasCalibrate v \<Longrightarrow> p (Sleep 2) = []" and "hasCalibrate v \<Longrightarrow> p pollRead = []"
  shows "follows mode p (convertSet_j1 v) (script v mode)"
proof -
  have "follows mode p (convertSet_j1 v)
     ([modeRead] @ settleCalls mode
      @ attrOps v ''windowCoveringType'' None None (Some 2)
      @ attrOps v ''configStatus'' None None (Some 2)
      @ attrOps v ''windowCoveringMode'' None None (Some 2)
      @ ((if hasCalibrate v then calibrationCalls mode else [])
         @ attributeCalls v
         @ (if hasCalibrate v then finalizeCalls mode else [])))"
    unfolding convertSet_j1_def
    apply (rule follows_read_windowCoveringMode)
    apply (rule follows_await [OF follows_settle])
    apply (rule follows_await [OF follows_writeAttrFromJson])
    apply (rule follows_await [OF follows_writeAttrFromJson])
    apply (rule follows_await_value [OF follows_writeAttrFromJson writeAttrFromJson_undefined])
     apply assumption
    apply (simp only: truthy.simps if_False Let_def)
    apply (rule follows_blocks)
     apply (erule assms(1))
    apply (erule assms(2))
    done
  then show ?thesis by (simp add: script_def)
qed

subsection \<open>Bits of the mode and views of the line\<close>

lemma trunc_of_int:
  "(if (of_int i :: rat) < 0 then \<lceil>of_int i :: rat\<rceil> else \<lfloor>of_int i :: rat\<rfloor>) = i"
  by simp

lemma bitLength_bounds:
  "0 < n \<Longrightarrow> 1 \<le> bitLength n \<and> 2 ^ nat (bitLength n - 1) \<le> n \<and> n < 2 ^ nat (bitLength n)"
proof (induction n rule: bitLength.induct)
  case (1 n)
  show ?case
  proof (cases "n div 2 = 0")
    case True
    with "1.prems" have "n = 1" by presburger
    then show ?thesis
      by (simp add: bitLength.simps [of 1] bitLength.simps [of 0])
  next
    case False
    with "1.prems" have pos: "0 < n div 2" by presburger
    from "1.IH" [OF _ pos] "1.prems"
    have ih: "1 \<le> bitLength (n div 2)" "2 ^ nat (bitLength (n div 2) - 1) \<le> n div 2"
      "n div 2 < 2 ^ nat (bitLength (n div 2))"
      by auto
    have b: "bitLength n = 1 + bitLength (n div 2)"
      using "1.prems" by (simp add: bitLength.simps [of n])
    have p: "(2::int) ^ nat (bitLength n - 1) = 2 ^ nat (bitLength (n div 2))"
      "(2::int) ^ nat (bitLength n) = 2 * 2 ^ nat (bitLength (n div 2))"
      "(2::int) ^ nat (bitLength (n div 2)) = 2 * 2 ^ nat (bitLength (n div 2) - 1)"
      using ih(1) by (simp_all add: b nat_add_distrib flip: power_Suc)
    have "2 * (n div 2) \<le> n" "n < 2 * (n div 2) + 2" by presburger+
    with ih p show ?thesis
      using b by linarith
  qed
qed

lemma floorLog2_of_int:
  assumes "0 < n"
  shows "floorLog2 (of_int n) = bitLength n - 1"
proof -
  from bitLength_bounds [OF assms] have b: "1 \<le> bitLength n" "2 ^ nat (bitLength n - 1) \<le> n"
    by simp_all
  have one: "bitLength 1 = 1"
    by (simp add: bitLength.simps [of 1] bitLength.simps [of 0])
  have "(2::rat) ^ nat (bitLength n - 1) \<le> of_int n"
    using b(2) by (metis of_int_le_iff of_int_numeral of_int_power)
  then show ?thesis
    using b(1) by (simp add: floorLog2_def one pow2_def)
qed

lemma roundHalfEven_of_int: "roundHalfEven (of_int k) = k"
  by (simp add: roundHalfEven_def)

text \<open>A whole number below \<open>2^53\<close> in magnitude is a binary64 value.\<close>

lemma round64_magnitude:
  assumes "0 < n" and "n < 2 ^ 53" and "\<bar>r\<bar> = of_int n"
  shows "round64 r = Finite r"
proof -
  define e where "e = bitLength n - 1"
  from bitLength_bounds [OF assms(1)] have b: "0 \<le> e" "2 ^ nat e \<le> n"
    by (simp_all add: e_def)
  have "e < 53"
  proof (rule ccontr)
    assume "\<not> e < 53"
    then have "53 \<le> nat e" by simp
    then have "(2::int) ^ 53 \<le> 2 ^ nat e"
      by (rule power_increasing) simp
    with b(2) assms(2) show False by simp
  qed
  define k where "k = nat (52 - e)"
  have q: "pow2 (max e (- 1022) - 52) = 1 / 2 ^ k"
    using b(1) \<open>e < 53\<close> by (auto simp: pow2_def k_def max_def)
  have a: "of_int n / (1 / 2 ^ k) = (of_int (n * 2 ^ k) :: rat)"
    by simp
  have fl: "floorLog2 (of_int n) = e"
    using floorLog2_of_int [OF assms(1)] by (simp add: e_def)
  have nz: "n * 2 ^ k \<noteq> 0"
    using assms(1) by simp
  have undo: "of_int (n * 2 ^ k) * (1 / 2 ^ k) = (of_int n :: rat)"
    by simp
  have sign: "(if r < 0 then - of_int n else of_int n) = r"
    using assms(3) by (auto simp: abs_if split: if_splits)
  show ?thesis
    unfolding round64_def assms(3) fl Let_def q a roundHalfEven_of_int undo
    using \<open>e < 53\<close> nz sign by simp
qed

lemma round64_zero: "round64 0 = Finite 0"
  by (simp add: round64_def floorLog2_def roundHalfEven_def Let_def pow2_def
      bitLength.simps [of 0] bitLength.simps [of 1])

lemma round64_of_int:
  assumes "\<bar>n\<bar> < 2 ^ 53"
  shows "round64 (of_int n) = Finite (of_int n)"
proof (cases "n = 0")
  case True
  then show ?thesis by (simp add: round64_zero)
next
  case False
  then have "0 < \<bar>n\<bar>" by simp
  from round64_magnitude [OF this assms, of "of_int n"] show ?thesis by simp
qed

text \<open>\<open>binary64\<close> is the rounding, on every number.\<close>

lemma binary64_round64: "binary64 r = round64 r"
proof (cases "whole53 r")
  case True
  obtain n d where q: "quotient_of r = (n, d)" by (cases "quotient_of r")
  with True have d: "d = 1" and n: "\<bar>n\<bar> < 2 ^ 53"
    by (simp_all add: whole53_def)
  from quotient_of_div [OF q] d have "r = of_int n" by simp
  with round64_of_int [OF n] True show ?thesis
    by (simp add: binary64_def)
next
  case False
  then show ?thesis by (simp add: binary64_def)
qed

lemma binary64_of_int:
  assumes "\<bar>n\<bar> < 2 ^ 53"
  shows "binary64 (of_int n) = Finite (of_int n)"
  unfolding binary64_round64 by (rule round64_of_int [OF assms])

lemma js_times_whole:
  assumes "0 < a" and "0 < b" and "a * b < 2 ^ 53"
  shows "js_times (JNum (of_int a)) (JNum (of_int b)) = JNum (of_int (a * b))"
proof -
  have ab: "0 < a * b" using assms(1,2) by simp
  have "a \<le> a * b" "b \<le> a * b"
    using assms(1,2) by (simp_all add: mult_le_cancel_left1 mult_le_cancel_right2)
  with assms have "\<bar>a\<bar> < 2 ^ 53" "\<bar>b\<bar> < 2 ^ 53" "\<bar>a * b\<bar> < 2 ^ 53"
    using ab by linarith+
  from this [THEN binary64_of_int] show ?thesis
    using assms(1,2) by (simp add: js_times_def times64_def)
qed

lemma js_divide_1000_whole:
  assumes "0 < n" and "1000 * n < 2 ^ 53"
  shows "js_divide_1000 (JNum (of_int (1000 * n))) = JNum (of_int n)"
proof -
  from assms have "\<bar>1000 * n\<bar> < 2 ^ 53" "\<bar>n\<bar> < 2 ^ 53"
    by linarith+
  from this [THEN binary64_of_int] show ?thesis
    using assms(1) by (simp add: js_divide_1000_def divide64_1000_def)
qed

lemma sint_53: "\<bar>sint (w :: 32 word)\<bar> < 2 ^ 53"
proof -
  have "- (2 ^ 31) \<le> sint w" "sint w < 2 ^ 31"
    using sint_ge [of w] sint_lt [of w] by simp_all
  moreover have "(2::int) ^ 31 < 2 ^ 53" by simp
  ultimately show ?thesis by linarith
qed

lemma toNumber_ofInt32: "toNumber (ofInt32 w) = Finite (of_int (sint w))"
  unfolding ofInt32_def toNumber.simps
  by (rule binary64_of_int [OF sint_53])

lemma toInt32_ofInt32: "toInt32 (ofInt32 w) = w"
  unfolding toInt32_def toNumber_ofInt32 number.case trunc_of_int
  by simp

lemma truthy_ofInt32: "truthy (ofInt32 w) = (w \<noteq> 0)"
proof -
  have "binary64 (of_int (sint w)) = Finite (of_int (sint w))"
    by (rule binary64_of_int [OF sint_53])
  then show ?thesis
    unfolding ofInt32_def truthy.simps by (simp add: signed_eq_0_iff)
qed

lemma and_not_mask: "(w AND NOT m) AND m = (0 :: 32 word)"
  by (simp add: and.assoc)

lemma or_mask: "(w OR 2) AND 2 = (2 :: 32 word)"
  by (rule bit_eqI) (auto simp: bit_and_iff bit_or_iff)

lemma toInt32_mask: "toInt32 modeCalibrationBitMask = 2"
proof -
  have "binary64 (of_int 2) = Finite (of_int 2)"
    by (rule binary64_of_int) simp
  then show ?thesis
    by (simp add: toInt32_def modeCalibrationBitMask_def)
qed

lemma calibrating_cleared: "\<not> calibrating (js_bitand mode (js_bitnot modeCalibrationBitMask))"
  unfolding calibrating_def js_bitand_def js_bitnot_def toInt32_ofInt32 toInt32_mask and_not_mask
    truthy_ofInt32
  by simp

lemma calibrating_set: "calibrating (js_bitor mode modeCalibrationBitMask)"
  unfolding calibrating_def js_bitand_def js_bitor_def toInt32_ofInt32 toInt32_mask or_mask
    truthy_ofInt32
  by simp

lemma runs:
  assumes "hasCalibrate v \<Longrightarrow> p (Sleep 2) = []" and "hasCalibrate v \<Longrightarrow> p pollRead = []"
  shows "\<exists>xs. view p (trace (snd (runCalibration v d))) = view p (trace d) @ xs \<and>
              prefix xs (view p (script v (reported_mode d))) \<and>
              (resolved (fst (runCalibration v d)) \<longrightarrow> xs = view p (script v (reported_mode d)))"
  using follows_convertSet_j1 [OF assms, where mode = "reported_mode d"]
  by (simp add: follows_def runCalibration_def)

lemma written_attrOps:
  "view (writes_of a) (attrOps v attr jsonAttr converterFunc delaySecondsAfter) =
     (if attr = a \<and> get v (jsonKey attr jsonAttr) \<noteq> JUndefined
      then [case converterFunc of
              None \<Rightarrow> get v (jsonKey attr jsonAttr)
            | Some f \<Rightarrow> f (get v (jsonKey attr jsonAttr))]
      else [])"
  by (simp add: attrOps_def writes_of_def split: option.split)

lemma motion_attrOps:
  "view motion (attrOps v attr jsonAttr converterFunc delaySecondsAfter) = []"
  by (simp add: attrOps_def motion_def split: option.split)

lemma motion_settleCalls: "view motion (settleCalls mode) = []"
  by (simp add: settleCalls_def motion_def)

lemma attribute_write_attrOps:
  "view attribute_write (attrOps v attr jsonAttr converterFunc delaySecondsAfter) =
     (if get v (jsonKey attr jsonAttr) \<noteq> JUndefined
      then [Write ''closuresWindowCovering''
              [(attr, case converterFunc of
                        None \<Rightarrow> get v (jsonKey attr jsonAttr)
                      | Some f \<Rightarrow> f (get v (jsonKey attr jsonAttr)))] Ubisys]
      else [])"
  by (simp add: attrOps_def attribute_write_def split: option.split)

lemma written_settleCalls:
  "view (writes_of ''windowCoveringMode'') (settleCalls mode) =
     (if calibrating mode then [js_bitand mode (js_bitnot modeCalibrationBitMask)] else [])"
  by (simp add: settleCalls_def writes_of_def calibrating_def)

lemma written_script_mode:
  assumes "hasCalibrate v"
  shows "view (writes_of ''windowCoveringMode'') (script v mode) =
     (if calibrating mode then [js_bitand mode (js_bitnot modeCalibrationBitMask)] else [])
     @ (if get v ''windowCoveringMode'' \<noteq> JUndefined then [get v ''windowCoveringMode''] else [])
     @ [js_bitor mode modeCalibrationBitMask,
        js_bitand mode (js_bitnot modeCalibrationBitMask)]"
proof -
  have a: "view (writes_of ''windowCoveringMode'') (attributeCalls v) = []"
    by (simp add: attributeCalls_def written_attrOps)
  have c: "view (writes_of ''windowCoveringMode'') (calibrationCalls mode) =
      [js_bitor mode modeCalibrationBitMask]"
    by (simp add: calibrationCalls_def writes_of_def)
  have f: "view (writes_of ''windowCoveringMode'') (finalizeCalls mode) =
      [js_bitand mode (js_bitnot modeCalibrationBitMask)]"
    by (simp add: finalizeCalls_def reportReads_def writes_of_def)
  have r: "writes_of ''windowCoveringMode'' modeRead = []"
    by (simp add: modeRead_def writes_of_def)
  show ?thesis
    using assms
    by (simp add: script_def a c f r written_settleCalls written_attrOps jsonKey_def)
qed

lemma written_runs:
  assumes "resolved (fst (runCalibration v d))"
  shows "written a (trace (snd (runCalibration v d))) =
           written a (trace d) @ written a (script v (reported_mode d))"
proof -
  have "writes_of a (Sleep 2) = []" and "writes_of a pollRead = []"
    by (simp_all add: writes_of_def pollRead_def)
  from runs [of v "writes_of a" d, OF this] assms
  show ?thesis by (auto simp: written_def)
qed

lemma written_fixed:
  "written a [modeRead] = []"
  "written a reportReads = []"
  by (simp_all add: written_def modeRead_def reportReads_def writes_of_def)

lemma written_append: "written a (xs @ ys) = written a xs @ written a ys"
  by (simp add: written_def)

lemma written_Nil: "written a [] = []"
  by (simp add: written_def)

lemma written_Cons: "written a (x # xs) = writes_of a x @ written a xs"
  by (simp add: written_def)

lemma writes_of_modeRead: "writes_of a modeRead = []"
  by (simp add: modeRead_def writes_of_def)

lemma written_settle_other:
  "a \<noteq> ''windowCoveringMode'' \<Longrightarrow> written a (settleCalls mode) = []"
  by (simp add: written_def settleCalls_def writes_of_def)

lemma written_finalize_other:
  "a \<noteq> ''windowCoveringMode'' \<Longrightarrow> written a (finalizeCalls mode) = []"
  using written_fixed(2) [of a]
  by (simp add: written_def finalizeCalls_def writes_of_def)

lemma written_attrOps':
  "written a (attrOps v attr jsonAttr converterFunc delaySecondsAfter) =
     (if attr = a \<and> get v (jsonKey attr jsonAttr) \<noteq> JUndefined
      then [case converterFunc of
              None \<Rightarrow> get v (jsonKey attr jsonAttr)
            | Some f \<Rightarrow> f (get v (jsonKey attr jsonAttr))]
      else [])"
  by (simp add: written_def written_attrOps)

lemma jsonKey_plain:
  "jsonKey a (Some ''open_to_closed_s'') = ''open_to_closed_s''"
  "jsonKey a (Some ''closed_to_open_s'') = ''closed_to_open_s''"
  "jsonKey a (Some ''lift_to_tilt_transition_ms'') = ''lift_to_tilt_transition_ms''"
  by (simp_all add: jsonKey_def)

lemma last_write_TotalSteps:
  assumes "get v ''open_to_closed_s'' \<noteq> JUndefined"
  shows "\<exists>pre. written ''ubisysTotalSteps'' (attributeCalls v) =
           pre @ [js_times (get v ''open_to_closed_s'') (stepsPerSecond v)]"
  using assms
  by (simp add: attributeCalls_def written_append written_attrOps' jsonKey_plain)

lemma last_write_TotalSteps2:
  assumes "get v ''closed_to_open_s'' \<noteq> JUndefined"
  shows "\<exists>pre. written ''ubisysTotalSteps2'' (attributeCalls v) =
           pre @ [js_times (get v ''closed_to_open_s'') (stepsPerSecond v)]"
  using assms
  by (simp add: attributeCalls_def written_append written_attrOps' jsonKey_plain)

lemma last_write_LiftToTilt:
  assumes "get v ''lift_to_tilt_transition_ms'' \<noteq> JUndefined"
  shows "\<exists>pre. written ''ubisysLiftToTiltTransitionSteps'' (attributeCalls v) =
           pre @ [js_divide_1000 (js_times (get v ''lift_to_tilt_transition_ms'')
                    (stepsPerSecond v))]"
  using assms
  by (simp add: attributeCalls_def written_append written_attrOps' jsonKey_plain)

lemma last_write_LiftToTilt2:
  assumes "get v ''lift_to_tilt_transition_ms'' \<noteq> JUndefined"
  shows "\<exists>pre. written ''ubisysLiftToTiltTransitionSteps2'' (attributeCalls v) =
           pre @ [js_divide_1000 (js_times (get v ''lift_to_tilt_transition_ms'')
                    (stepsPerSecond v))]"
  using assms
  by (simp add: attributeCalls_def written_append written_attrOps' jsonKey_plain)

lemma written_whole:
  assumes "resolved (fst (runCalibration v d))" and "a \<noteq> ''windowCoveringMode''"
    and "\<exists>pre. written a (attributeCalls v) = pre @ [x]"
  shows "\<exists>pre. written a (trace (snd (runCalibration v d))) = pre @ [x]"
proof -
  from assms(3) obtain pre where pre: "written a (attributeCalls v) = pre @ [x]" ..
  have "written a (script v (reported_mode d)) =
      (written a (attrOps v ''windowCoveringType'' None None (Some 2)
         @ attrOps v ''configStatus'' None None (Some 2)
         @ attrOps v ''windowCoveringMode'' None None (Some 2)
         @ (if hasCalibrate v then calibrationCalls (reported_mode d) else [])) @ pre) @ [x]"
    using assms(2)
    by (simp add: script_def written_append written_Cons writes_of_modeRead
        written_settle_other written_finalize_other pre written_Nil)
  then show ?thesis
    unfolding written_runs [OF assms(1)] by (metis append.assoc)
qed

lemma motion_script:
  assumes "\<not> hasCalibrate v"
  shows "view motion (script v mode) = []"
proof -
  have "view motion (attributeCalls v) = []"
    by (simp add: attributeCalls_def motion_attrOps)
  moreover have "motion modeRead = []"
    by (simp add: modeRead_def motion_def)
  ultimately show ?thesis
    using assms by (simp add: script_def motion_attrOps motion_settleCalls)
qed

lemma get_single: "get [k \<mapsto> x] k' = (if k' = k then x else JUndefined)"
  by (simp add: get_def)

lemma attribute_write_single:
  assumes "\<not> calibrating mode" and "x \<noteq> JUndefined"
  shows "view attribute_write (script [''installedOpenLimitLiftCm'' \<mapsto> x] mode) =
     [Write ''closuresWindowCovering'' [(''installedOpenLimitLiftCm'', x)] Ubisys]"
proof -
  have a: "view attribute_write (attributeCalls [''installedOpenLimitLiftCm'' \<mapsto> x]) =
      [Write ''closuresWindowCovering'' [(''installedOpenLimitLiftCm'', x)] Ubisys]"
    using assms(2)
    by (simp add: attributeCalls_def attribute_write_attrOps get_single jsonKey_def
        toLowerCase_text_def)
  have h: "\<not> hasCalibrate [''installedOpenLimitLiftCm'' \<mapsto> x]"
    by (simp add: hasCalibrate_def get_single)
  have r: "attribute_write modeRead = []"
    by (simp add: modeRead_def attribute_write_def)
  have s: "settleCalls mode = []"
    using assms(1) by (simp add: settleCalls_def calibrating_def)
  show ?thesis
    by (simp add: script_def a h r s attribute_write_attrOps get_single jsonKey_def)
qed

lemma commands_attrOps:
  "view commands (attrOps v attr jsonAttr converterFunc delaySecondsAfter) = []"
  by (simp add: attrOps_def commands_def split: option.split)

lemma commands_script:
  assumes "hasCalibrate v"
  shows "view commands (script v mode) =
     [Command ''closuresWindowCovering'' ''upOpen'',
      Command ''closuresWindowCovering'' ''downClose'',
      Command ''closuresWindowCovering'' ''stop'',
      Command ''closuresWindowCovering'' ''upOpen'',
      Command ''closuresWindowCovering'' ''downClose'',
      Command ''closuresWindowCovering'' ''upOpen'']"
proof -
  have a: "view commands (attributeCalls v) = []"
    by (simp add: attributeCalls_def commands_attrOps)
  have r: "commands modeRead = []"
    by (simp add: modeRead_def commands_def)
  have s: "view commands (settleCalls mode) = []"
    by (simp add: settleCalls_def commands_def)
  have f: "view commands (finalizeCalls mode) = []"
    by (simp add: finalizeCalls_def reportReads_def commands_def)
  have c: "view commands (calibrationCalls mode) =
     [Command ''closuresWindowCovering'' ''upOpen'',
      Command ''closuresWindowCovering'' ''downClose'',
      Command ''closuresWindowCovering'' ''stop'',
      Command ''closuresWindowCovering'' ''upOpen'',
      Command ''closuresWindowCovering'' ''downClose'',
      Command ''closuresWindowCovering'' ''upOpen'']"
    by (simp add: calibrationCalls_def commands_def)
  show ?thesis
    using assms by (simp add: script_def a r s f c commands_attrOps)
qed

lemma attribute_write_settleCalls:
  "view attribute_write (settleCalls mode) =
     (if calibrating mode
      then [Write ''closuresWindowCovering''
              [(''windowCoveringMode'', js_bitand mode (js_bitnot modeCalibrationBitMask))]
              NoOptions]
      else [])"
  by (simp add: settleCalls_def attribute_write_def calibrating_def)

text \<open>
  Without the learning sequence, every attribute write of the line clears the
  calibration bit of the mode read back, or takes its value from the payload.
\<close>

lemma attrOps_from_payload:
  assumes "w \<in> set (view attribute_write (attrOps v attr jsonAttr converterFunc delay))"
    and "converterFunc = None
       \<or> converterFunc = Some (\<lambda>s. js_times s (stepsPerSecond v))
       \<or> converterFunc = Some (\<lambda>s. js_divide_1000 (js_times s (stepsPerSecond v)))"
  shows "\<exists>a key. get v key \<noteq> JUndefined \<and>
           (w = Write ''closuresWindowCovering'' [(a, get v key)] Ubisys
          \<or> w = Write ''closuresWindowCovering''
                  [(a, js_times (get v key) (stepsPerSecond v))] Ubisys
          \<or> w = Write ''closuresWindowCovering''
                  [(a, js_divide_1000 (js_times (get v key) (stepsPerSecond v)))] Ubisys)"
proof -
  from assms(1) have k: "get v (jsonKey attr jsonAttr) \<noteq> JUndefined"
    and w: "w = Write ''closuresWindowCovering''
              [(attr, case converterFunc of
                        None \<Rightarrow> get v (jsonKey attr jsonAttr)
                      | Some f \<Rightarrow> f (get v (jsonKey attr jsonAttr)))] Ubisys"
    by (auto simp: attribute_write_attrOps split: if_splits)
  show ?thesis
    apply (rule exI [of _ attr])
    apply (rule exI [of _ "jsonKey attr jsonAttr"])
    using k w assms(2) by auto
qed

lemma attributeCalls_from_payload:
  assumes "w \<in> set (view attribute_write (attributeCalls v))"
  shows "\<exists>a key. get v key \<noteq> JUndefined \<and>
           (w = Write ''closuresWindowCovering'' [(a, get v key)] Ubisys
          \<or> w = Write ''closuresWindowCovering''
                  [(a, js_times (get v key) (stepsPerSecond v))] Ubisys
          \<or> w = Write ''closuresWindowCovering''
                  [(a, js_divide_1000 (js_times (get v key) (stepsPerSecond v)))] Ubisys)"
proof -
  from assms obtain attr jsonAttr converterFunc where
    "w \<in> set (view attribute_write (attrOps v attr jsonAttr converterFunc None))"
    "converterFunc = None
       \<or> converterFunc = Some (\<lambda>s. js_times s (stepsPerSecond v))
       \<or> converterFunc = Some (\<lambda>s. js_divide_1000 (js_times s (stepsPerSecond v)))"
    unfolding attributeCalls_def view_append set_append Un_iff
    by blast
  then show ?thesis by (rule attrOps_from_payload)
qed


lemma script_from_payload:
  assumes "\<not> hasCalibrate v" and "w \<in> set (view attribute_write (script v mode))"
  shows "(calibrating mode \<and>
          w = Write ''closuresWindowCovering''
                [(''windowCoveringMode'', js_bitand mode (js_bitnot modeCalibrationBitMask))]
                NoOptions)
       \<or> (\<exists>a key. get v key \<noteq> JUndefined \<and>
           (w = Write ''closuresWindowCovering'' [(a, get v key)] Ubisys
          \<or> w = Write ''closuresWindowCovering''
                  [(a, js_times (get v key) (stepsPerSecond v))] Ubisys
          \<or> w = Write ''closuresWindowCovering''
                  [(a, js_divide_1000 (js_times (get v key) (stepsPerSecond v)))] Ubisys))"
proof -
  have r: "attribute_write modeRead = []"
    by (simp add: modeRead_def attribute_write_def)
  from assms have "w \<in> set (view attribute_write (settleCalls mode))
      \<or> w \<in> set (view attribute_write (attrOps v ''windowCoveringType'' None None (Some 2)))
      \<or> w \<in> set (view attribute_write (attrOps v ''configStatus'' None None (Some 2)))
      \<or> w \<in> set (view attribute_write (attrOps v ''windowCoveringMode'' None None (Some 2)))
      \<or> w \<in> set (view attribute_write (attributeCalls v))"
    unfolding script_def view_append set_append Un_iff
    by (simp add: view_def r)
  then show ?thesis
    using attrOps_from_payload [of w v _ None None "Some 2"] attributeCalls_from_payload [of w v]
    by (auto simp: attribute_write_settleCalls split: if_splits)
qed

section \<open>How the compiler runs\<close>

lemma processTemplates_append:
  "processTemplates model c (xs @ ys) =
     (case processTemplates model c xs of
        Inl err \<Rightarrow> Inl err
      | Inr c' \<Rightarrow> processTemplates model c' ys)"
  by (induction xs arbitrary: c) (auto split: sum.splits)

lemma getInputActions_rows:
  "getInputActions f i e template \<noteq> []"
  "r \<in> set (getInputActions f i e template) \<Longrightarrow> hd r = Num i \<and> r ! 2 = e"
  by (cases f; auto)+

lemma getInputActions_double_rows:
  "Num i0 \<in> hd ` set (getInputActions_double f (i0, i1) e template)"
  "Num i1 \<in> hd ` set (getInputActions_double f (i0, i1) e template)"
  "r \<in> set (getInputActions_double f (i0, i1) e template) \<Longrightarrow>
     (hd r = Num i0 \<or> hd r = Num i1) \<and> r ! 2 = e"
  by (cases f; auto)+

lemma scene_shape:
  "\<exists>k. getInputActions_scene f i e g s =
     [[Num i, Num k, e, Num 0x05, Num 0x00, Num 0x05,
       Num (js_band g 0xff), Num (js_sar g 8), Num s]]"
  "\<exists>k. getInputActions2 f i e g s =
     [[Num i, Num k, e, Num 0x05, Num 0x00, Num 0x05,
       Num (js_band g 0xff), Num (js_sar g 8), Num s]]"
  by (cases f; simp)+

lemma scene_row:
  "r \<in> set (getInputActions_scene f i e g s) \<Longrightarrow>
     hd r = Num i \<and> r ! 2 = e \<and> r ! 6 = Num (js_band g 0xff) \<and> r ! 7 = Num (js_sar g 8)"
  "r \<in> set (getInputActions2 f i e g s) \<Longrightarrow>
     hd r = Num i \<and> r ! 2 = e \<and> r ! 6 = Num (js_band g 0xff) \<and> r ! 7 = Num (js_sar g 8)"
  by (cases f; simp)+

text \<open>What one pass of the loop does, when it does not throw.\<close>

lemma processTemplate_Inr:
  assumes "processTemplate model c t = Inr c'"
  shows "\<exists>tt rows m.
      templateTypes (t_type t) = Some tt
      \<and> resultingInputActions c' = resultingInputActions c @ rows
      \<and> rows \<noteq> []
      \<and> Num m \<in> hd ` set rows \<and> (\<forall>r\<in>set rows. \<exists>i. hd r = Num i \<and> i \<le> m)
      \<and> input c' = m + 1
      \<and> (\<forall>r\<in>set rows. r ! 2 = usedEndpoint model tt (resolvedEndpoint c t))
      \<and> endpoint c' = js_add (usedEndpoint model tt (resolvedEndpoint c t)) 1"
proof -
  from assms obtain tt where tt: "templateTypes (t_type t) = Some tt"
    by (auto simp: processTemplate_def split: option.splits)
  define i where "i = (case t_input t of Some v \<Rightarrow> v | None \<Rightarrow> input c)"
  define e where "e = usedEndpoint model tt (resolvedEndpoint c t)"
  show ?thesis
  proof (cases tt)
    case (SingleInput f)
    with assms tt have c': "c' = c\<lparr>input := i + 1, endpoint := js_add e 1,
        resultingInputActions := resultingInputActions c @ getInputActions f i e t\<rparr>"
      unfolding processTemplate_def i_def e_def by (auto simp: Let_def)
    have "Num i \<in> hd ` set (getInputActions f i e t)"
      using getInputActions_rows [where f = f and i = i and e = e and template = t]
      by (cases "getInputActions f i e t") force+
    then show ?thesis
      using getInputActions_rows [where f = f and i = i and e = e and template = t] tt
      by (intro exI [of _ tt] exI [of _ "getInputActions f i e t"] exI [of _ i])
         (auto simp: c' e_def)
  next
    case (DoubleInputs f)
    define p where "p = (case t_inputs t of Some p \<Rightarrow> p | None \<Rightarrow> (i, i + 1))"
    from DoubleInputs assms tt have c': "c' = c\<lparr>input := max (fst p) (snd p) + 1,
        endpoint := js_add e 1,
        resultingInputActions := resultingInputActions c @ getInputActions_double f p e t\<rparr>"
      unfolding processTemplate_def i_def e_def p_def by (auto simp: Let_def)
    obtain i0 i1 where p: "p = (i0, i1)" by (cases p)
    have "Num (max i0 i1) \<in> hd ` set (getInputActions_double f (i0, i1) e t)"
      using getInputActions_double_rows(1,2) [where f = f and ?i0.0 = i0 and ?i1.0 = i1
          and e = e and template = t]
      by (simp add: max_def)
    moreover have "getInputActions_double f (i0, i1) e t \<noteq> []"
      using getInputActions_double_rows(1) [where f = f and ?i0.0 = i0 and ?i1.0 = i1
          and e = e and template = t]
      by auto
    moreover have "\<exists>i. hd r = Num i \<and> i \<le> max i0 i1"
      and "r ! 2 = e" if "r \<in> set (getInputActions_double f (i0, i1) e t)" for r
      using getInputActions_double_rows(3) [OF that] by fastforce+
    ultimately show ?thesis
      using tt
      by (intro exI [of _ tt] exI [of _ "getInputActions_double f p e t"]
          exI [of _ "max i0 i1"])
         (simp add: c' e_def p)
  next
    case (Scenes f)
    with assms tt obtain s where s: "t_scene_id t = Some s"
      by (cases "t_scene_id t") (auto simp: processTemplate_def Let_def)
    define g where "g = (case t_group_id t of Some v \<Rightarrow> v | None \<Rightarrow> groupId c)"
    define g2 where "g2 = (case t_group_id_2 t of Some v \<Rightarrow> v | None \<Rightarrow> g)"
    define rows where "rows = getInputActions_scene f i e g s
      @ (case t_scene_id_2 t of None \<Rightarrow> [] | Some s2 \<Rightarrow> getInputActions2 f i e g2 s2)"
    from Scenes assms tt s have c': "resultingInputActions c' = resultingInputActions c @ rows"
      "input c' = i + 1" "endpoint c' = js_add e 1"
      unfolding processTemplate_def i_def e_def g_def g2_def rows_def
      by (auto simp: Let_def split: option.splits)
    have r: "hd r = Num i \<and> r ! 2 = e" if "r \<in> set rows" for r
      using that scene_row [where r = r and f = f and i = i and e = e]
      by (auto simp: rows_def split: option.splits)
    obtain k where "getInputActions_scene f i e g s =
        [[Num i, Num k, e, Num 0x05, Num 0x00, Num 0x05,
          Num (js_band g 0xff), Num (js_sar g 8), Num s]]"
      using scene_shape(1) by blast
    then have "rows \<noteq> []" "Num i \<in> hd ` set rows"
      by (simp_all add: rows_def)
    then show ?thesis
      using r tt
      by (intro exI [of _ tt] exI [of _ rows] exI [of _ i])
         (auto simp: c' e_def)
  qed
qed

lemma double_heads:
  "hd ` set (getInputActions_double f (i0, i1) e template) = {Num i0, Num i1}"
  by (cases f) auto

lemma processTemplate_double:
  assumes "templateTypes (t_type t) = Some (DoubleInputs f)"
    and "t_input t = None" and "t_inputs t = None"
  shows "\<exists>c'. processTemplate model c t = Inr c'
      \<and> resultingInputActions c' = resultingInputActions c
          @ getInputActions_double f (input c, input c + 1)
              (usedEndpoint model (DoubleInputs f) (resolvedEndpoint c t)) t"
  using assms by (simp add: processTemplate_def Let_def)

lemma groupId_kept:
  assumes "t_group_id t = None" and "t_group_id_2 t = None"
    and "processTemplate model c t = Inr c'"
  shows "groupId c' = groupId c"
proof -
  from assms(3) obtain tt where tt: "templateTypes (t_type t) = Some tt"
    by (auto simp: processTemplate_def split: option.splits)
  show ?thesis
    using assms tt
    by (cases tt) (auto simp: processTemplate_def Let_def split: option.splits)
qed

lemma groupId_kept_all:
  "list_all (\<lambda>t. t_group_id t = None \<and> t_group_id_2 t = None) ts \<Longrightarrow>
   processTemplates model c ts = Inr c' \<Longrightarrow> groupId c' = groupId c"
proof (induction ts arbitrary: c)
  case Nil
  then show ?case by simp
next
  case (Cons t ts)
  from Cons.prems(2) obtain c1 where t: "processTemplate model c t = Inr c1"
    and ts: "processTemplates model c1 ts = Inr c'"
    by (auto split: sum.splits)
  from Cons.prems(1) have "groupId c1 = groupId c"
    using groupId_kept [OF _ _ t] by simp
  moreover from Cons.prems(1) have "groupId c' = groupId c1"
    using Cons.IH [OF _ ts] by simp
  ultimately show ?case by simp
qed

lemma sint_small:
  assumes "0 \<le> k" and "k < 2 ^ 31"
  shows "sint (word_of_int k :: 32 word) = k"
  using assms by (simp add: sint_sbintrunc' signed_take_bit_int_eq_self)

lemma js_band_byte:
  assumes "0 \<le> g" and "g < 2 ^ 31"
  shows "js_band g 0xff = g mod 256"
proof -
  have m: "g AND 255 = g mod 256"
    using take_bit_eq_mask [of 8 g] by (simp add: take_bit_eq_mod mask_eq_exp_minus_1)
  have "(word_of_int g :: 32 word) AND word_of_int 255 = word_of_int (g AND 255)"
    by (simp add: of_int_and_eq)
  then have "js_band g 0xff = sint (word_of_int (g mod 256) :: 32 word)"
    by (simp add: js_band_def m)
  also have "\<dots> = g mod 256"
    by (rule sint_small) (use assms in auto)
  finally show ?thesis .
qed

lemma js_sar_byte:
  assumes "0 \<le> g" and "g < 2 ^ 31"
  shows "js_sar g 8 = g div 256"
  using assms
  by (simp add: js_sar_def sint_signed_drop_bit_eq sint_small drop_bit_eq_div)

section \<open>Claims\<close>




text \<open>
  Claim C2. The claim: a \<open>windowCoveringMode\<close> in the payload is written and becomes the
  working mode, so the enabling write is that mode with bit \<open>0x02\<close> set and the
  finalizing write is that mode with the bit cleared. The source assigns
  \<open>mode = value.windowCoveringMode\<close> only if \<open>writeAttrFromJson\<close> resolves with a truthy
  value, and \<open>writeAttrFromJson\<close> has no \<open>return\<close>. On a device that reads back mode 0,
  with \<open>{calibrate: true, windowCoveringMode: 1}\<close>, the three writes to
  \<open>windowCoveringMode\<close> are 1, 2 and 0, where the claim has 1, 3 and 1.
\<close>

theorem mode_not_adopted:
  "fst (runCalibration [''calibrate'' \<mapsto> JBool True, ''windowCoveringMode'' \<mapsto> JNum 1]
        (fresh (JNum 0) [JNum 0, JNum 0, JNum 0, JNum 0] None)) = Resolved ()
   \<and> written ''windowCoveringMode'' (trace (snd (runCalibration
        [''calibrate'' \<mapsto> JBool True, ''windowCoveringMode'' \<mapsto> JNum 1]
        (fresh (JNum 0) [JNum 0, JNum 0, JNum 0, JNum 0] None)))) =
      [JNum 1, JNum 2, JNum 0]
   \<and> js_bitor (JNum 1) modeCalibrationBitMask = JNum 3
   \<and> js_bitand (JNum 1) (js_bitnot modeCalibrationBitMask) = JNum 1"
  by code_simp

text \<open>
  Claim C3. The claim: a value the payload holds for an attribute of the list is written,
  never dropped. For an attribute whose name starts with \<open>ubisys\<close> the source looks the
  value up under the text of the \<open>toLowerCase\<close> function followed by the name from its
  eighth character on, so a payload that holds \<open>ubisysTotalSteps\<close> (or \<open>totalSteps\<close>)
  gets no write at all: the run below makes the one read and resolves.
\<close>

theorem ubisys_attributes_dropped:
  "jsonKey ''ubisysTotalSteps'' None = ''function toLowerCase() { [native code] }otalSteps''
   \<and> runCalibration [''ubisysTotalSteps'' \<mapsto> JNum 1000, ''totalSteps'' \<mapsto> JNum 1000]
        (fresh (JNum 0) [] None) =
      (Resolved (),
       \<lparr>trace = [Read ''closuresWindowCovering'' [''windowCoveringMode''] NoOptions],
        reported_mode = JNum 0, reported_status = [], budget = None\<rparr>)"
  by code_simp

text \<open>
  Claim C4. The claim: a run with \<open>calibrate\<close> set that completes writes
  \<open>windowCoveringMode\<close> last with bit \<open>0x02\<close> cleared, whatever else the payload holds,
  and the bit is set only between the enabling and the finalizing write. The first part
  holds. The second does not when the payload itself holds a \<open>windowCoveringMode\<close> with
  the bit set: that value is written as it is, before the enabling write. What holds: a
  run with \<open>calibrate\<close> present and not null that resolves writes to
  \<open>windowCoveringMode\<close>, in this order, values with the bit cleared (the settling), the
  payload's \<open>windowCoveringMode\<close> as given (only if present), one value with the bit set
  (the enabling write) and, next and last, one value with the bit cleared (the finalizing
  write).
\<close>

theorem calibration_mode_writes:
  assumes "hasCalibrate v" and "resolved (fst (runCalibration v d))"
  shows "\<exists>settle enable final.
           written ''windowCoveringMode'' (trace (snd (runCalibration v d))) =
             written ''windowCoveringMode'' (trace d)
             @ settle
             @ (if get v ''windowCoveringMode'' \<noteq> JUndefined
                then [get v ''windowCoveringMode''] else [])
             @ [enable, final]
           \<and> list_all (\<lambda>x. \<not> calibrating x) settle
           \<and> calibrating enable
           \<and> \<not> calibrating final
           \<and> \<not> calibrating (last (written ''windowCoveringMode''
                  (trace (snd (runCalibration v d)))))"
proof -
  have "writes_of ''windowCoveringMode'' (Sleep 2) = []"
    and "writes_of ''windowCoveringMode'' pollRead = []"
    by (simp_all add: writes_of_def pollRead_def)
  from runs [of v "writes_of ''windowCoveringMode''" d, OF this] assms(2)
  have w: "view (writes_of ''windowCoveringMode'') (trace (snd (runCalibration v d))) =
      view (writes_of ''windowCoveringMode'') (trace d)
      @ view (writes_of ''windowCoveringMode'') (script v (reported_mode d))"
    by auto
  let ?settle = "if calibrating (reported_mode d)
      then [js_bitand (reported_mode d) (js_bitnot modeCalibrationBitMask)] else []"
  let ?enable = "js_bitor (reported_mode d) modeCalibrationBitMask"
  let ?final = "js_bitand (reported_mode d) (js_bitnot modeCalibrationBitMask)"
  have "written ''windowCoveringMode'' (trace (snd (runCalibration v d))) =
             written ''windowCoveringMode'' (trace d)
             @ ?settle
             @ (if get v ''windowCoveringMode'' \<noteq> JUndefined
                then [get v ''windowCoveringMode''] else [])
             @ [?enable, ?final]"
    unfolding written_def w written_script_mode [OF assms(1)] by simp
  moreover have "list_all (\<lambda>x. \<not> calibrating x) ?settle"
    by (simp add: calibrating_cleared)
  moreover have "calibrating ?enable" "\<not> calibrating ?final"
    by (rule calibrating_set, rule calibrating_cleared)
  moreover have "\<not> calibrating (last (written ''windowCoveringMode''
                  (trace (snd (runCalibration v d)))))"
    unfolding written_def w written_script_mode [OF assms(1)]
    by (simp add: calibrating_cleared)
  ultimately show ?thesis by blast
qed

text \<open>
  The theorem on a device that reads back mode 3 and needs two polls to stop the first
  time: the writes are 1 (settle), 3 (enable) and 1 (finalize). And at the payload
  \<open>{calibrate: true, windowCoveringMode: 0}\<close> on a device in mode 0: the writes are 0
  (the payload's), 2 (enable) and 0 (finalize).
\<close>

theorem calibration_mode_writes_witness:
  "hasCalibrate [''calibrate'' \<mapsto> JBool True, ''installedOpenLimitLiftCm'' \<mapsto> JNum 50]
   \<and> resolved (fst (runCalibration
        [''calibrate'' \<mapsto> JBool True, ''installedOpenLimitLiftCm'' \<mapsto> JNum 50]
        (fresh (JNum 3) [JNum 1, JNum 0, JNum 0, JNum 0, JNum 0] None)))
   \<and> written ''windowCoveringMode'' (trace (snd (runCalibration
        [''calibrate'' \<mapsto> JBool True, ''installedOpenLimitLiftCm'' \<mapsto> JNum 50]
        (fresh (JNum 3) [JNum 1, JNum 0, JNum 0, JNum 0, JNum 0] None)))) =
      [JNum 1, JNum 3, JNum 1]
   \<and> \<not> calibrating (JNum 1) \<and> calibrating (JNum 3)
   \<and> \<not> calibrating (last (written ''windowCoveringMode'' (trace (snd (runCalibration
        [''calibrate'' \<mapsto> JBool True, ''installedOpenLimitLiftCm'' \<mapsto> JNum 50]
        (fresh (JNum 3) [JNum 1, JNum 0, JNum 0, JNum 0, JNum 0] None))))))
   \<and> hasCalibrate [''calibrate'' \<mapsto> JBool True, ''windowCoveringMode'' \<mapsto> JNum 0]
   \<and> resolved (fst (runCalibration
        [''calibrate'' \<mapsto> JBool True, ''windowCoveringMode'' \<mapsto> JNum 0]
        (fresh (JNum 0) [JNum 0, JNum 0, JNum 0, JNum 0] None)))
   \<and> written ''windowCoveringMode'' (trace (snd (runCalibration
        [''calibrate'' \<mapsto> JBool True, ''windowCoveringMode'' \<mapsto> JNum 0]
        (fresh (JNum 0) [JNum 0, JNum 0, JNum 0, JNum 0] None)))) =
      [JNum 0, JNum 2, JNum 0]
   \<and> \<not> calibrating (JNum 0) \<and> calibrating (JNum 2)
   \<and> \<not> calibrating (last (written ''windowCoveringMode'' (trace (snd (runCalibration
        [''calibrate'' \<mapsto> JBool True, ''windowCoveringMode'' \<mapsto> JNum 0]
        (fresh (JNum 0) [JNum 0, JNum 0, JNum 0, JNum 0] None))))))"
proof -
  let ?v = "[''calibrate'' \<mapsto> JBool True, ''installedOpenLimitLiftCm'' \<mapsto> JNum 50]"
  let ?d = "fresh (JNum 3) [JNum 1, JNum 0, JNum 0, JNum 0, JNum 0] None"
  let ?v' = "[''calibrate'' \<mapsto> JBool True, ''windowCoveringMode'' \<mapsto> JNum 0]"
  let ?d' = "fresh (JNum 0) [JNum 0, JNum 0, JNum 0, JNum 0] None"
  have h: "hasCalibrate ?v" "hasCalibrate ?v'"
    by code_simp+
  have r: "resolved (fst (runCalibration ?v ?d))" "resolved (fst (runCalibration ?v' ?d'))"
    by code_simp+
  have e: "written ''windowCoveringMode'' (trace (snd (runCalibration ?v ?d))) =
      [JNum 1, JNum 3, JNum 1]"
    "written ''windowCoveringMode'' (trace (snd (runCalibration ?v' ?d'))) =
      [JNum 0, JNum 2, JNum 0]"
    "\<not> calibrating (JNum 1)" "calibrating (JNum 3)"
    "\<not> calibrating (JNum 0)" "calibrating (JNum 2)"
    by code_simp+
  from calibration_mode_writes [OF h(1) r(1)]
  have l: "\<not> calibrating (last (written ''windowCoveringMode''
      (trace (snd (runCalibration ?v ?d)))))"
    by blast
  from calibration_mode_writes [OF h(2) r(2)]
  have l': "\<not> calibrating (last (written ''windowCoveringMode''
      (trace (snd (runCalibration ?v' ?d')))))"
    by blast
  show ?thesis
    using h r e l l' by blast
qed

text \<open>
  With \<open>{calibrate: true, windowCoveringMode: 2}\<close> on a device in mode 0 the first
  write to \<open>windowCoveringMode\<close>, before the enabling one, already has the bit set.
\<close>

theorem caller_mode_counterexample:
  "hasCalibrate [''calibrate'' \<mapsto> JBool True, ''windowCoveringMode'' \<mapsto> JNum 2]
   \<and> fst (runCalibration [''calibrate'' \<mapsto> JBool True, ''windowCoveringMode'' \<mapsto> JNum 2]
        (fresh (JNum 0) [JNum 0, JNum 0, JNum 0, JNum 0] None)) = Resolved ()
   \<and> written ''windowCoveringMode'' (trace (snd (runCalibration
        [''calibrate'' \<mapsto> JBool True, ''windowCoveringMode'' \<mapsto> JNum 2]
        (fresh (JNum 0) [JNum 0, JNum 0, JNum 0, JNum 0] None)))) =
      [JNum 2, JNum 2, JNum 0]
   \<and> calibrating (JNum 2)"
  by code_simp

text \<open>
  Claim C5. The claim: for a model other than S1, S2, D1, J1 and C4 the compiler raises
  a fatal error before it emits a row or writes to the device. The source looks the
  starting endpoint up in an object literal and tests nothing. S1-R, whose definition
  uses this converter, is not in the table: its starting endpoint is \<open>undefined\<close>, one
  \<open>toggle\<close> template compiles without an error into a row whose endpoint is
  \<open>undefined\<close>, and \<open>configure_device_setup\<close> writes that row to the device, reads back
  and resolves.
\<close>

theorem unknown_model_undefined_endpoint:
  "startingEndpoint ''S1-R'' = Undefined
   \<and> compileTemplates (Definition ''S1-R'') [plain ''toggle''] =
     Inr [[Num 0, Num 0x0d, Undefined, Num 0x06, Num 0x00, Num 0x02]]
   \<and> convertSet_device_setup (Definition ''S1-R'') False
       \<lparr>input_configurations = None, input_actions = None,
        input_action_templates = Some (One (plain ''toggle''))\<rparr>
       (fresh JUndefined [] None) =
     (Resolved (),
      \<lparr>trace =
         [WriteElements ''manuSpecificUbisysDeviceSetup'' ''inputActions''
            (OCTET_STR [[Num 0, Num 0x0d, Undefined, Num 0x06, Num 0x00, Num 0x02]])
            UbisysNull,
          Read ''manuSpecificUbisysDeviceSetup'' [''inputConfigurations''] UbisysNull,
          Read ''manuSpecificUbisysDeviceSetup'' [''inputActions''] UbisysNull],
       reported_mode = JUndefined, reported_status = [], budget = None\<rparr>)"
  by code_simp

text \<open>
  Claim C6. For every list of templates and every position in it: when the loop has
  passed the templates \<open>pre\<close> and then \<open>t\<close> without an error, the running input is one
  more than the largest input in the rows emitted for \<open>t\<close>, and the running endpoint is
  the endpoint of those rows plus one (\<open>js_add\<close>, JavaScript's \<open>+\<close>). Whatever follows
  (\<open>post\<close>) starts from that cursor, whether or not it overrides input and endpoint. A
  double-input template with neither \<open>input\<close> nor \<open>inputs\<close>, reached with the running
  input 2, emits rows for the inputs 2 and 3 and no other.
\<close>

theorem cursor_advance:
  assumes "processTemplates model (initialCursor model) (pre @ [t]) = Inr c'"
  shows "\<exists>c rows m.
      processTemplates model (initialCursor model) pre = Inr c
      \<and> resultingInputActions c' = resultingInputActions c @ rows
      \<and> Num m \<in> hd ` set rows \<and> (\<forall>r\<in>set rows. \<exists>i. hd r = Num i \<and> i \<le> m)
      \<and> input c' = m + 1
      \<and> (\<forall>r\<in>set rows. endpoint c' = js_add (r ! 2) 1)
      \<and> processTemplates model (initialCursor model) (pre @ t # post) =
          processTemplates model c' post
      \<and> ((\<exists>f. templateTypes (t_type t) = Some (DoubleInputs f)) \<and> t_input t = None
            \<and> t_inputs t = None \<and> input c = 2 \<longrightarrow>
          hd ` set rows = {Num 2, Num 3})"
proof -
  from assms obtain c where c: "processTemplates model (initialCursor model) pre = Inr c"
    and t: "processTemplate model c t = Inr c'"
    by (auto simp: processTemplates_append split: sum.splits)
  from processTemplate_Inr [OF t] obtain tt rows m where r:
    "resultingInputActions c' = resultingInputActions c @ rows"
    "Num m \<in> hd ` set rows" "\<forall>r\<in>set rows. \<exists>i. hd r = Num i \<and> i \<le> m"
    "input c' = m + 1"
    "\<forall>r\<in>set rows. r ! 2 = usedEndpoint model tt (resolvedEndpoint c t)"
    "endpoint c' = js_add (usedEndpoint model tt (resolvedEndpoint c t)) 1"
    by blast
  have post: "processTemplates model (initialCursor model) (pre @ t # post) =
      processTemplates model c' post"
    by (simp add: processTemplates_append c t)
  have two: "hd ` set rows = {Num 2, Num 3}"
    if "templateTypes (t_type t) = Some (DoubleInputs f)" "t_input t = None"
      "t_inputs t = None" "input c = 2" for f
  proof -
    from processTemplate_double [OF that(1-3), of model c] t that(4) obtain e where
      "resultingInputActions c' =
         resultingInputActions c @ getInputActions_double f (2, 3) e t"
      by auto
    with r(1) have "rows = getInputActions_double f (2, 3) e t" by simp
    then show ?thesis by (simp add: double_heads)
  qed
  then have two': "(\<exists>f. templateTypes (t_type t) = Some (DoubleInputs f)) \<and> t_input t = None
            \<and> t_inputs t = None \<and> input c = 2 \<longrightarrow>
          hd ` set rows = {Num 2, Num 3}"
    by blast
  have ep: "\<forall>r\<in>set rows. endpoint c' = js_add (r ! 2) 1"
    using r(5,6) by simp
  show ?thesis
    using c r(1-4) ep post two' by blast
qed

text \<open>
  The theorem for a D1 and \<open>toggle\<close>, \<open>on\<close>, \<open>dimmer_double\<close>: the third template is
  reached with input 2 and endpoint 4, uses the inputs 2 and 3, and leaves input 4 and
  endpoint 5.
\<close>

theorem cursor_advance_witness:
  "processTemplates ''D1'' (initialCursor ''D1'')
     ([plain ''toggle'', plain ''on''] @ [plain ''dimmer_double'']) =
     Inr \<lparr>input = 4, endpoint = Num 5, groupId = 0,
          resultingInputActions =
            [[Num 0, Num 13, Num 2, Num 6, Num 0, Num 2],
             [Num 1, Num 13, Num 3, Num 6, Num 0, Num 1],
             [Num 2, Num 7, Num 4, Num 6, Num 0, Num 1],
             [Num 2, Num 6, Num 4, Num 8, Num 0, Num 5, Num 0, Num 50],
             [Num 2, Num 11, Num 4, Num 8, Num 0, Num 3],
             [Num 3, Num 7, Num 4, Num 6, Num 0, Num 0],
             [Num 3, Num 6, Num 4, Num 8, Num 0, Num 5, Num 1, Num 50],
             [Num 3, Num 11, Num 4, Num 8, Num 0, Num 3]]\<rparr>
   \<and> (\<exists>c rows. processTemplates ''D1'' (initialCursor ''D1'')
          [plain ''toggle'', plain ''on''] = Inr c
        \<and> input c = 2 \<and> endpoint c = Num 4
        \<and> length rows = 6 \<and> hd ` set rows = {Num 2, Num 3}
        \<and> list_all (\<lambda>r. r ! 2 = Num 4) rows)"
proof -
  let ?c' = "\<lparr>input = 4, endpoint = Num 5, groupId = 0,
          resultingInputActions =
            [[Num 0, Num 13, Num 2, Num 6, Num 0, Num 2],
             [Num 1, Num 13, Num 3, Num 6, Num 0, Num 1],
             [Num 2, Num 7, Num 4, Num 6, Num 0, Num 1],
             [Num 2, Num 6, Num 4, Num 8, Num 0, Num 5, Num 0, Num 50],
             [Num 2, Num 11, Num 4, Num 8, Num 0, Num 3],
             [Num 3, Num 7, Num 4, Num 6, Num 0, Num 0],
             [Num 3, Num 6, Num 4, Num 8, Num 0, Num 5, Num 1, Num 50],
             [Num 3, Num 11, Num 4, Num 8, Num 0, Num 3]]\<rparr>"
  let ?c = "\<lparr>input = 2, endpoint = Num 4, groupId = 0,
        resultingInputActions =
          [[Num 0, Num 13, Num 2, Num 6, Num 0, Num 2],
           [Num 1, Num 13, Num 3, Num 6, Num 0, Num 1]]\<rparr>"
  have h: "processTemplates ''D1'' (initialCursor ''D1'')
     ([plain ''toggle'', plain ''on''] @ [plain ''dimmer_double'']) = Inr ?c'"
    by code_simp
  have p: "processTemplates ''D1'' (initialCursor ''D1'')
     [plain ''toggle'', plain ''on''] = Inr ?c"
    by code_simp
  have d: "templateTypes (t_type (plain ''dimmer_double'')) = Some (DoubleInputs Dimmer_double)"
    "t_input (plain ''dimmer_double'') = None" "t_inputs (plain ''dimmer_double'') = None"
    by code_simp+
  from cursor_advance [OF h, of "[]"] obtain c rows m where c:
    "processTemplates ''D1'' (initialCursor ''D1'') [plain ''toggle'', plain ''on''] = Inr c"
    "resultingInputActions ?c' = resultingInputActions c @ rows"
    "\<forall>r\<in>set rows. endpoint ?c' = js_add (r ! 2) 1"
    "(\<exists>f. templateTypes (t_type (plain ''dimmer_double'')) = Some (DoubleInputs f))
       \<and> t_input (plain ''dimmer_double'') = None
       \<and> t_inputs (plain ''dimmer_double'') = None \<and> input c = 2 \<longrightarrow>
     hd ` set rows = {Num 2, Num 3}"
    by blast
  from c(1) p have e: "c = ?c" by simp
  with c(4) d have heads: "hd ` set rows = {Num 2, Num 3}" by simp
  from c(2) e have rows: "rows =
            [[Num 2, Num 7, Num 4, Num 6, Num 0, Num 1],
             [Num 2, Num 6, Num 4, Num 8, Num 0, Num 5, Num 0, Num 50],
             [Num 2, Num 11, Num 4, Num 8, Num 0, Num 3],
             [Num 3, Num 7, Num 4, Num 6, Num 0, Num 0],
             [Num 3, Num 6, Num 4, Num 8, Num 0, Num 5, Num 1, Num 50],
             [Num 3, Num 11, Num 4, Num 8, Num 0, Num 3]]"
    by simp
  show ?thesis
    using h p heads rows e
    by (intro conjI exI [of _ ?c] exI [of _ rows]) simp_all
qed

text \<open>
  Claim C7. For a \<open>scene\<close> or \<open>scene_switch\<close> template: without \<open>scene_id\<close> the pass
  throws "Need an attribute 'scene_id'", and a list that reaches such a template makes
  the \<open>input_action_templates\<close> block throw with the device untouched (no call, no
  trace entry); with \<open>scene_id\<close> and no \<open>scene_id_2\<close> the pass appends exactly one row;
  with both it appends exactly two.
\<close>

theorem scene_templates:
  assumes "templateTypes (t_type t) = Some (Scenes f)"
  shows "(t_scene_id t = None \<longrightarrow>
            processTemplate model c t = Inl (NeedSceneId (t_type t))
            \<and> (processTemplates model (initialCursor model) pre = Inr c \<longrightarrow>
                 writeTemplates (Definition model) useWriteStruct (Many (pre @ t # post)) d =
                   (Thrown (NeedSceneId (t_type t)), d)))
       \<and> (t_scene_id t \<noteq> None \<and> t_scene_id_2 t = None \<longrightarrow>
            (\<exists>c' row. processTemplate model c t = Inr c'
               \<and> resultingInputActions c' = resultingInputActions c @ [row]))
       \<and> (t_scene_id t \<noteq> None \<and> t_scene_id_2 t \<noteq> None \<longrightarrow>
            (\<exists>c' row row2. processTemplate model c t = Inr c'
               \<and> resultingInputActions c' = resultingInputActions c @ [row, row2]))"
proof (intro conjI impI)
  assume n: "t_scene_id t = None"
  then show e: "processTemplate model c t = Inl (NeedSceneId (t_type t))"
    using assms by (simp add: processTemplate_def Let_def)
  assume "processTemplates model (initialCursor model) pre = Inr c"
  then have "compileTemplates (Definition model) (pre @ t # post) =
      Inl (NeedSceneId (t_type t))"
    by (simp add: compileTemplates_def processTemplates_append e)
  then show "writeTemplates (Definition model) useWriteStruct (Many (pre @ t # post)) d =
      (Thrown (NeedSceneId (t_type t)), d)"
    by (simp add: writeTemplates_def throw_def)
next
  assume "t_scene_id t \<noteq> None \<and> t_scene_id_2 t = None"
  then obtain s where s: "t_scene_id t = Some s" "t_scene_id_2 t = None" by auto
  obtain row where "getInputActions_scene f
      (case t_input t of Some v \<Rightarrow> v | None \<Rightarrow> input c)
      (usedEndpoint model (Scenes f) (resolvedEndpoint c t))
      (case t_group_id t of Some v \<Rightarrow> v | None \<Rightarrow> groupId c) s = [row]"
    using scene_shape(1) by blast
  then show "\<exists>c' row. processTemplate model c t = Inr c'
      \<and> resultingInputActions c' = resultingInputActions c @ [row]"
    using assms s by (simp add: processTemplate_def Let_def)
next
  assume "t_scene_id t \<noteq> None \<and> t_scene_id_2 t \<noteq> None"
  then obtain s s2 where s: "t_scene_id t = Some s" "t_scene_id_2 t = Some s2" by auto
  obtain row where "getInputActions_scene f
      (case t_input t of Some v \<Rightarrow> v | None \<Rightarrow> input c)
      (usedEndpoint model (Scenes f) (resolvedEndpoint c t))
      (case t_group_id t of Some v \<Rightarrow> v | None \<Rightarrow> groupId c) s = [row]"
    using scene_shape(1) by blast
  moreover obtain row2 where "getInputActions2 f
      (case t_input t of Some v \<Rightarrow> v | None \<Rightarrow> input c)
      (usedEndpoint model (Scenes f) (resolvedEndpoint c t))
      (case t_group_id_2 t of Some v \<Rightarrow> v
       | None \<Rightarrow> (case t_group_id t of Some v \<Rightarrow> v | None \<Rightarrow> groupId c)) s2 = [row2]"
    using scene_shape(2) by blast
  ultimately show "\<exists>c' row row2. processTemplate model c t = Inr c'
      \<and> resultingInputActions c' = resultingInputActions c @ [row, row2]"
    using assms s by (simp add: processTemplate_def Let_def)
qed

text \<open>
  The theorem on a C4: a \<open>scene\<close> template without \<open>scene_id\<close>, alone and between two
  other templates; a \<open>scene\<close> template with \<open>scene_id\<close>; a \<open>scene_switch\<close> template
  with \<open>scene_id\<close> and \<open>scene_id_2\<close>.
\<close>

theorem scene_templates_witness:
  "templateTypes (t_type (plain ''scene'')) = Some (Scenes Scene)
   \<and> processTemplate ''C4'' (initialCursor ''C4'') (plain ''scene'') =
       Inl (NeedSceneId ''scene'')
   \<and> writeTemplates (Definition ''C4'') False
         (Many ([plain ''toggle''] @ plain ''scene'' # [plain ''on'']))
         (fresh JUndefined [] None) =
       (Thrown (NeedSceneId ''scene''), fresh JUndefined [] None)
   \<and> (\<exists>c' row. processTemplate ''C4'' (initialCursor ''C4'')
          ((plain ''scene'')\<lparr>t_scene_id := Some 1\<rparr>) = Inr c'
        \<and> resultingInputActions c' = [row])
   \<and> (\<exists>c' row row2. processTemplate ''C4'' (initialCursor ''C4'')
          ((plain ''scene_switch'')\<lparr>t_scene_id := Some 1, t_scene_id_2 := Some 2\<rparr>) = Inr c'
        \<and> resultingInputActions c' = [row, row2])"
proof -
  have t: "templateTypes (t_type (plain ''scene'')) = Some (Scenes Scene)"
    "t_scene_id (plain ''scene'') = None"
    by code_simp+
  have p: "processTemplates ''C4'' (initialCursor ''C4'') [plain ''toggle''] =
      Inr \<lparr>input = 1, endpoint = Num 2, groupId = 0,
           resultingInputActions = [[Num 0, Num 13, Num 1, Num 6, Num 0, Num 2]]\<rparr>"
    by code_simp
  have t1: "templateTypes (t_type ((plain ''scene'')\<lparr>t_scene_id := Some 1\<rparr>)) =
      Some (Scenes Scene)"
    "t_scene_id ((plain ''scene'')\<lparr>t_scene_id := Some 1\<rparr>) \<noteq> None"
    "t_scene_id_2 ((plain ''scene'')\<lparr>t_scene_id := Some 1\<rparr>) = None"
    by code_simp+
  have t2: "templateTypes (t_type
        ((plain ''scene_switch'')\<lparr>t_scene_id := Some 1, t_scene_id_2 := Some 2\<rparr>)) =
      Some (Scenes Scene_switch)"
    "t_scene_id ((plain ''scene_switch'')\<lparr>t_scene_id := Some 1, t_scene_id_2 := Some 2\<rparr>)
       \<noteq> None"
    "t_scene_id_2 ((plain ''scene_switch'')\<lparr>t_scene_id := Some 1, t_scene_id_2 := Some 2\<rparr>)
       \<noteq> None"
    by code_simp+
  have i: "resultingInputActions (initialCursor ''C4'') = []"
    by (simp add: initialCursor_def)
  have n: "t_type (plain ''scene'') = ''scene''"
    by (simp add: plain_def)
  from scene_templates [OF t(1), where c = "initialCursor ''C4''" and model = "''C4''"] t(2)
  have a: "processTemplate ''C4'' (initialCursor ''C4'') (plain ''scene'') =
       Inl (NeedSceneId ''scene'')"
    by (simp add: n)
  from scene_templates [OF t(1), where model = "''C4''" and pre = "[plain ''toggle'']"
      and useWriteStruct = False and post = "[plain ''on'']"
      and d = "fresh JUndefined [] None"] t(2) p
  have b: "writeTemplates (Definition ''C4'') False
         (Many ([plain ''toggle''] @ plain ''scene'' # [plain ''on'']))
         (fresh JUndefined [] None) =
       (Thrown (NeedSceneId ''scene''), fresh JUndefined [] None)"
    by (simp add: n)
  from scene_templates [OF t1(1), where c = "initialCursor ''C4''" and model = "''C4''"] t1(2,3)
  have c: "\<exists>c' row. processTemplate ''C4'' (initialCursor ''C4'')
          ((plain ''scene'')\<lparr>t_scene_id := Some 1\<rparr>) = Inr c'
        \<and> resultingInputActions c' = [row]"
    by (simp add: i)
  from scene_templates [OF t2(1), where c = "initialCursor ''C4''" and model = "''C4''"] t2(2,3)
  have d: "\<exists>c' row row2. processTemplate ''C4'' (initialCursor ''C4'')
          ((plain ''scene_switch'')\<lparr>t_scene_id := Some 1, t_scene_id_2 := Some 2\<rparr>) = Inr c'
        \<and> resultingInputActions c' = [row, row2]"
    by (simp add: i)
  from t(1) a b c d show ?thesis by blast
qed

text \<open>
  Claim C8. Every row emitted for a template carries, as its third cell, the resolved
  endpoint (the template's \<open>endpoint\<close>, else the running one) plus 4 when the family is a
  cover family, the model is C4 and the resolved endpoint is below 5, and the resolved
  endpoint itself in every other case.
\<close>

theorem cover_endpoint:
  assumes "templateTypes (t_type t) = Some tt" and "processTemplate model c t = Inr c'"
  shows "\<exists>rows. resultingInputActions c' = resultingInputActions c @ rows \<and> rows \<noteq> []
      \<and> (\<forall>r\<in>set rows. r ! 2 =
           (if cover tt \<and> model = ''C4'' \<and> js_lt (resolvedEndpoint c t) 5
            then js_add (resolvedEndpoint c t) 4
            else resolvedEndpoint c t))"
  using processTemplate_Inr [OF assms(2)] assms(1)
  by (auto simp: usedEndpoint_def)

text \<open>
  The theorem for a \<open>cover\<close> template on a C4 at the starting endpoint 1: the four rows
  carry endpoint 5.
\<close>

theorem cover_endpoint_witness:
  "templateTypes (t_type (plain ''cover'')) = Some (DoubleInputs Cover)
   \<and> processTemplate ''C4'' (initialCursor ''C4'') (plain ''cover'') =
       Inr \<lparr>input = 2, endpoint = Num 6, groupId = 0,
            resultingInputActions =
              [[Num 0, Num 13, Num 5, Num 2, Num 1, Num 0],
               [Num 0, Num 7, Num 5, Num 2, Num 1, Num 2],
               [Num 1, Num 13, Num 5, Num 2, Num 1, Num 1],
               [Num 1, Num 7, Num 5, Num 2, Num 1, Num 2]]\<rparr>
   \<and> resolvedEndpoint (initialCursor ''C4'') (plain ''cover'') = Num 1
   \<and> (\<exists>rows. rows \<noteq> [] \<and> list_all (\<lambda>r. r ! 2 = Num 5) rows)"
proof -
  have t: "templateTypes (t_type (plain ''cover'')) = Some (DoubleInputs Cover)"
    by code_simp
  have p: "processTemplate ''C4'' (initialCursor ''C4'') (plain ''cover'') =
       Inr \<lparr>input = 2, endpoint = Num 6, groupId = 0,
            resultingInputActions =
              [[Num 0, Num 13, Num 5, Num 2, Num 1, Num 0],
               [Num 0, Num 7, Num 5, Num 2, Num 1, Num 2],
               [Num 1, Num 13, Num 5, Num 2, Num 1, Num 1],
               [Num 1, Num 7, Num 5, Num 2, Num 1, Num 2]]\<rparr>"
    by code_simp
  have e: "resolvedEndpoint (initialCursor ''C4'') (plain ''cover'') = Num 1"
    by code_simp
  from cover_endpoint [OF t p]
  have "\<exists>rows. rows \<noteq> [] \<and> list_all (\<lambda>r. r ! 2 = Num 5) rows"
    by (auto simp: e list_all_iff)
  with t p e show ?thesis by blast
qed

text \<open>
  Claim C9. When the payload holds \<open>open_to_closed_s\<close>, the last value a resolved run
  writes to \<open>ubisysTotalSteps\<close> is that value times \<open>value.steps_per_second || 50\<close>;
  likewise \<open>closed_to_open_s\<close> for \<open>ubisysTotalSteps2\<close>; and
  \<open>lift_to_tilt_transition_ms\<close> times the same, over 1000, for
  \<open>ubisysLiftToTiltTransitionSteps\<close> and \<open>ubisysLiftToTiltTransitionSteps2\<close>. The
  product and the quotient are JavaScript's, rounded to binary64 (\<open>js_times\<close>,
  \<open>js_divide_1000\<close>): for positive whole numbers with a product below \<open>2^53\<close> the
  product is the exact one, and so is the quotient of a whole multiple of 1000.
\<close>

theorem convenience_conversions:
  assumes "resolved (fst (runCalibration v d))"
  shows "let steps = (if truthy (get v ''steps_per_second'')
                      then get v ''steps_per_second'' else JNum 50)
     in (get v ''open_to_closed_s'' \<noteq> JUndefined \<longrightarrow>
            (\<exists>pre. written ''ubisysTotalSteps'' (trace (snd (runCalibration v d))) =
               pre @ [js_times (get v ''open_to_closed_s'') steps]))
       \<and> (get v ''closed_to_open_s'' \<noteq> JUndefined \<longrightarrow>
            (\<exists>pre. written ''ubisysTotalSteps2'' (trace (snd (runCalibration v d))) =
               pre @ [js_times (get v ''closed_to_open_s'') steps]))
       \<and> (get v ''lift_to_tilt_transition_ms'' \<noteq> JUndefined \<longrightarrow>
            (\<exists>pre. written ''ubisysLiftToTiltTransitionSteps''
                     (trace (snd (runCalibration v d))) =
               pre @ [js_divide_1000 (js_times (get v ''lift_to_tilt_transition_ms'') steps)])
          \<and> (\<exists>pre. written ''ubisysLiftToTiltTransitionSteps2''
                     (trace (snd (runCalibration v d))) =
               pre @ [js_divide_1000 (js_times (get v ''lift_to_tilt_transition_ms'') steps)]))
       \<and> (\<forall>s p. 0 < s \<and> 0 < p \<and> s * p < 2 ^ 53 \<longrightarrow>
            js_times (JNum (of_int s)) (JNum (of_int p)) = JNum (of_int (s * p)))
       \<and> (\<forall>n. 0 < n \<and> 1000 * n < 2 ^ 53 \<longrightarrow>
            js_divide_1000 (JNum (of_int (1000 * n))) = JNum (of_int n))"
proof -
  have s: "(if truthy (get v ''steps_per_second'')
            then get v ''steps_per_second'' else JNum 50) = stepsPerSecond v"
    by (simp add: stepsPerSecond_def)
  show ?thesis
    unfolding Let_def s
  proof (intro conjI impI allI)
    assume "get v ''open_to_closed_s'' \<noteq> JUndefined"
    from written_whole [OF assms _ last_write_TotalSteps [OF this]]
    show "\<exists>pre. written ''ubisysTotalSteps'' (trace (snd (runCalibration v d))) =
                 pre @ [js_times (get v ''open_to_closed_s'') (stepsPerSecond v)]"
      by simp
  next
    assume "get v ''closed_to_open_s'' \<noteq> JUndefined"
    from written_whole [OF assms _ last_write_TotalSteps2 [OF this]]
    show "\<exists>pre. written ''ubisysTotalSteps2'' (trace (snd (runCalibration v d))) =
                 pre @ [js_times (get v ''closed_to_open_s'') (stepsPerSecond v)]"
      by simp
  next
    assume "get v ''lift_to_tilt_transition_ms'' \<noteq> JUndefined"
    from written_whole [OF assms _ last_write_LiftToTilt [OF this]]
    show "\<exists>pre. written ''ubisysLiftToTiltTransitionSteps''
                       (trace (snd (runCalibration v d))) =
                 pre @ [js_divide_1000 (js_times (get v ''lift_to_tilt_transition_ms'')
                          (stepsPerSecond v))]"
      by simp
  next
    assume "get v ''lift_to_tilt_transition_ms'' \<noteq> JUndefined"
    from written_whole [OF assms _ last_write_LiftToTilt2 [OF this]]
    show "\<exists>pre. written ''ubisysLiftToTiltTransitionSteps2''
                       (trace (snd (runCalibration v d))) =
                 pre @ [js_divide_1000 (js_times (get v ''lift_to_tilt_transition_ms'')
                          (stepsPerSecond v))]"
      by simp
  next
    fix s p :: int
    assume "0 < s \<and> 0 < p \<and> s * p < 2 ^ 53"
    then show "js_times (JNum (of_int s)) (JNum (of_int p)) = JNum (of_int (s * p))"
      by (intro js_times_whole) blast+
  next
    fix n :: int
    assume "0 < n \<and> 1000 * n < 2 ^ 53"
    then show "js_divide_1000 (JNum (of_int (1000 * n))) = JNum (of_int n)"
      by (intro js_divide_1000_whole) blast+
  qed
qed

text \<open>
  The theorem at \<open>open_to_closed_s: 10\<close>, \<open>closed_to_open_s: 12\<close>,
  \<open>lift_to_tilt_transition_ms: 1600\<close> and \<open>steps_per_second: 50\<close>: 500, 600 and 80
  steps. With \<open>steps_per_second: 40\<close>: 400 and 64 steps. With no \<open>steps_per_second\<close>,
  \<open>open_to_closed_s: 8.7\<close> and \<open>lift_to_tilt_transition_ms: 1\<close>: the binary64 values
  \<open>434.99999999999994\<close> (435 less \<open>2^-44\<close>) and the one nearest to 0.05.
\<close>

theorem convenience_conversions_witness:
  "resolved (fst (runCalibration
      [''open_to_closed_s'' \<mapsto> JNum 10, ''closed_to_open_s'' \<mapsto> JNum 12,
       ''lift_to_tilt_transition_ms'' \<mapsto> JNum 1600, ''steps_per_second'' \<mapsto> JNum 50]
      (fresh (JNum 0) [] None)))
   \<and> (\<exists>pre. written ''ubisysTotalSteps'' (trace (snd (runCalibration
      [''open_to_closed_s'' \<mapsto> JNum 10, ''closed_to_open_s'' \<mapsto> JNum 12,
       ''lift_to_tilt_transition_ms'' \<mapsto> JNum 1600, ''steps_per_second'' \<mapsto> JNum 50]
      (fresh (JNum 0) [] None)))) = pre @ [JNum 500])
   \<and> (\<exists>pre. written ''ubisysTotalSteps2'' (trace (snd (runCalibration
      [''open_to_closed_s'' \<mapsto> JNum 10, ''closed_to_open_s'' \<mapsto> JNum 12,
       ''lift_to_tilt_transition_ms'' \<mapsto> JNum 1600, ''steps_per_second'' \<mapsto> JNum 50]
      (fresh (JNum 0) [] None)))) = pre @ [JNum 600])
   \<and> (\<exists>pre. written ''ubisysLiftToTiltTransitionSteps'' (trace (snd (runCalibration
      [''open_to_closed_s'' \<mapsto> JNum 10, ''closed_to_open_s'' \<mapsto> JNum 12,
       ''lift_to_tilt_transition_ms'' \<mapsto> JNum 1600, ''steps_per_second'' \<mapsto> JNum 50]
      (fresh (JNum 0) [] None)))) = pre @ [JNum 80])
   \<and> (\<exists>pre. written ''ubisysLiftToTiltTransitionSteps2'' (trace (snd (runCalibration
      [''open_to_closed_s'' \<mapsto> JNum 10, ''closed_to_open_s'' \<mapsto> JNum 12,
       ''lift_to_tilt_transition_ms'' \<mapsto> JNum 1600, ''steps_per_second'' \<mapsto> JNum 50]
      (fresh (JNum 0) [] None)))) = pre @ [JNum 80])
   \<and> resolved (fst (runCalibration
      [''open_to_closed_s'' \<mapsto> JNum 10, ''lift_to_tilt_transition_ms'' \<mapsto> JNum 1600,
       ''steps_per_second'' \<mapsto> JNum 40]
      (fresh (JNum 0) [] None)))
   \<and> (\<exists>pre. written ''ubisysTotalSteps'' (trace (snd (runCalibration
      [''open_to_closed_s'' \<mapsto> JNum 10, ''lift_to_tilt_transition_ms'' \<mapsto> JNum 1600,
       ''steps_per_second'' \<mapsto> JNum 40]
      (fresh (JNum 0) [] None)))) = pre @ [JNum 400])
   \<and> (\<exists>pre. written ''ubisysLiftToTiltTransitionSteps'' (trace (snd (runCalibration
      [''open_to_closed_s'' \<mapsto> JNum 10, ''lift_to_tilt_transition_ms'' \<mapsto> JNum 1600,
       ''steps_per_second'' \<mapsto> JNum 40]
      (fresh (JNum 0) [] None)))) = pre @ [JNum 64])
   \<and> resolved (fst (runCalibration
      [''open_to_closed_s'' \<mapsto> JNum (87 / 10), ''lift_to_tilt_transition_ms'' \<mapsto> JNum 1]
      (fresh (JNum 0) [] None)))
   \<and> (\<exists>pre. written ''ubisysTotalSteps'' (trace (snd (runCalibration
      [''open_to_closed_s'' \<mapsto> JNum (87 / 10), ''lift_to_tilt_transition_ms'' \<mapsto> JNum 1]
      (fresh (JNum 0) [] None)))) = pre @ [JNum (7652600929320959 / 17592186044416)])
   \<and> (\<exists>pre. written ''ubisysLiftToTiltTransitionSteps'' (trace (snd (runCalibration
      [''open_to_closed_s'' \<mapsto> JNum (87 / 10), ''lift_to_tilt_transition_ms'' \<mapsto> JNum 1]
      (fresh (JNum 0) [] None)))) =
        pre @ [JNum (3602879701896397 / 72057594037927936)])
   \<and> js_times (JNum 7) (JNum 40) = JNum 280
   \<and> js_divide_1000 (JNum 80000) = JNum 80"
proof -
  let ?v1 = "[''open_to_closed_s'' \<mapsto> JNum 10, ''closed_to_open_s'' \<mapsto> JNum 12,
       ''lift_to_tilt_transition_ms'' \<mapsto> JNum 1600, ''steps_per_second'' \<mapsto> JNum 50]"
  let ?v2 = "[''open_to_closed_s'' \<mapsto> JNum 10, ''lift_to_tilt_transition_ms'' \<mapsto> JNum 1600,
       ''steps_per_second'' \<mapsto> JNum 40]"
  let ?v3 = "[''open_to_closed_s'' \<mapsto> JNum (87 / 10),
       ''lift_to_tilt_transition_ms'' \<mapsto> JNum 1]"
  let ?d = "fresh (JNum 0) [] None"
  have r1: "resolved (fst (runCalibration ?v1 ?d))"
    by code_simp
  have r2: "resolved (fst (runCalibration ?v2 ?d))"
    by code_simp
  have r3: "resolved (fst (runCalibration ?v3 ?d))"
    by code_simp
  have e1: "get ?v1 ''open_to_closed_s'' = JNum 10" "get ?v1 ''closed_to_open_s'' = JNum 12"
    "get ?v1 ''lift_to_tilt_transition_ms'' = JNum 1600"
    "(if truthy (get ?v1 ''steps_per_second'') then get ?v1 ''steps_per_second''
      else JNum 50) = JNum 50"
    by code_simp+
  have e2: "get ?v2 ''open_to_closed_s'' = JNum 10"
    "get ?v2 ''closed_to_open_s'' = JUndefined"
    "get ?v2 ''lift_to_tilt_transition_ms'' = JNum 1600"
    "(if truthy (get ?v2 ''steps_per_second'') then get ?v2 ''steps_per_second''
      else JNum 50) = JNum 40"
    by code_simp+
  have e3: "get ?v3 ''open_to_closed_s'' = JNum (87 / 10)"
    "get ?v3 ''closed_to_open_s'' = JUndefined"
    "get ?v3 ''lift_to_tilt_transition_ms'' = JNum 1"
    "(if truthy (get ?v3 ''steps_per_second'') then get ?v3 ''steps_per_second''
      else JNum 50) = JNum 50"
    by code_simp+
  have a: "js_times (JNum 10) (JNum 50) = JNum 500" "js_times (JNum 12) (JNum 50) = JNum 600"
    "js_divide_1000 (js_times (JNum 1600) (JNum 50)) = JNum 80"
    "js_times (JNum 10) (JNum 40) = JNum 400"
    "js_divide_1000 (js_times (JNum 1600) (JNum 40)) = JNum 64"
    "js_times (JNum (87 / 10)) (JNum 50) = JNum (7652600929320959 / 17592186044416)"
    "js_divide_1000 (js_times (JNum 1) (JNum 50)) =
       JNum (3602879701896397 / 72057594037927936)"
    by code_simp+
  note i1 = convenience_conversions [OF r1, unfolded Let_def e1 a]
  note i2 = convenience_conversions [OF r2, unfolded Let_def e2 a]
  note i3 = convenience_conversions [OF r3, unfolded Let_def e3 a]
  from i1
  have c1: "(\<exists>pre. written ''ubisysTotalSteps'' (trace (snd (runCalibration ?v1 ?d))) =
        pre @ [JNum 500])"
    "(\<exists>pre. written ''ubisysTotalSteps2'' (trace (snd (runCalibration ?v1 ?d))) =
        pre @ [JNum 600])"
    "(\<exists>pre. written ''ubisysLiftToTiltTransitionSteps''
        (trace (snd (runCalibration ?v1 ?d))) = pre @ [JNum 80])"
    "(\<exists>pre. written ''ubisysLiftToTiltTransitionSteps2''
        (trace (snd (runCalibration ?v1 ?d))) = pre @ [JNum 80])"
    by simp_all
  from i2
  have c2: "(\<exists>pre. written ''ubisysTotalSteps'' (trace (snd (runCalibration ?v2 ?d))) =
        pre @ [JNum 400])"
    "(\<exists>pre. written ''ubisysLiftToTiltTransitionSteps''
        (trace (snd (runCalibration ?v2 ?d))) = pre @ [JNum 64])"
    by simp_all
  from i3
  have c3: "(\<exists>pre. written ''ubisysTotalSteps'' (trace (snd (runCalibration ?v3 ?d))) =
        pre @ [JNum (7652600929320959 / 17592186044416)])"
    "(\<exists>pre. written ''ubisysLiftToTiltTransitionSteps''
        (trace (snd (runCalibration ?v3 ?d))) =
        pre @ [JNum (3602879701896397 / 72057594037927936)])"
    by simp_all
  from convenience_conversions [OF r1]
  have q: "\<forall>s p. 0 < s \<and> 0 < p \<and> s * p < 2 ^ 53 \<longrightarrow>
            js_times (JNum (of_int s)) (JNum (of_int p)) = JNum (of_int (s * p))"
    and q': "\<forall>n. 0 < n \<and> 1000 * n < 2 ^ 53 \<longrightarrow>
            js_divide_1000 (JNum (of_int (1000 * n))) = JNum (of_int n)"
    unfolding Let_def by blast+
  have w: "js_times (JNum 7) (JNum 40) = JNum 280" "js_divide_1000 (JNum 80000) = JNum 80"
    using q [rule_format, of 7 40] q' [rule_format, of 80] by simp_all
  show ?thesis
    using r1 r2 r3 c1 c2 c3 w by blast
qed




end
